theory Spec2Isabelle
  imports Complex_Main
begin

section \<open>Numbers\<close>

text \<open>
  Every number of the program is a JavaScript double. The embedding idealises them as
  real numbers: rounding is left out, and a run in which \<^verbatim>\<open>Math.pow\<close> yields
  \<^verbatim>\<open>NaN\<close> or an infinity has no value in the model (it is \<open>None\<close>), as has a
  run that throws.
\<close>

definition Math_pow :: "real \<Rightarrow> real \<Rightarrow> real option" where
  \<comment> \<open>\<^verbatim>\<open>Math.pow(b, e)\<close>: 1 for exponent 0; the real power for a positive base; 0 for base 0
      and a positive exponent (an infinity for a negative one); for a negative base the integer
      power when the exponent is an integer, \<^verbatim>\<open>NaN\<close> otherwise.\<close>
  "Math_pow b e =
     (if e = 0 then Some 1
      else if 0 < b then Some (b powr e)
      else if b = 0 then (if 0 < e then Some 0 else None)
      else if e = of_int \<lfloor>e\<rfloor> then Some (b powi \<lfloor>e\<rfloor>)
      else None)"

definition ToInt32 :: "real \<Rightarrow> int" where
  \<comment> \<open>The conversion behind \<^verbatim>\<open>~~v\<close> and \<^verbatim>\<open>v >> 1\<close>: truncate towards zero, then wrap
      into the signed 32-bit range.\<close>
  "ToInt32 v =
     (let t = (if 0 \<le> v then \<lfloor>v\<rfloor> else \<lceil>v\<rceil>)
      in (t + 2 ^ 31) mod 2 ^ 32 - 2 ^ 31)"

definition shr1 :: "real \<Rightarrow> int" where
  \<comment> \<open>\<^verbatim>\<open>v >> 1\<close>: the arithmetic right shift of the 32-bit integer by one bit.\<close>
  "shr1 v = ToInt32 v div 2"

section \<open>Drawing surface\<close>

text \<open>
  The canvas and its 2D context are external. The context is modelled by what the
  program does to it: the two properties it assigns and the sequence of pixel-changing
  calls (\<^verbatim>\<open>clearRect\<close>, \<^verbatim>\<open>fillRect\<close>), each fill recorded with the fill style in
  force. A CSS colour string \<^verbatim>\<open>rgba(r,g,b,a)\<close> is kept as its four numbers.
\<close>

datatype css_color = Rgba real real real real

record radial_gradient =
  x0 :: real
  y0 :: real
  r0 :: real
  x1 :: real
  y1 :: real
  r1 :: real
  colorStops :: "(real \<times> css_color) list"

datatype ctx_call =
    ClearRect real real real real
  | FillRect "radial_gradient option" real real real real

record context2d =
  globalCompositeOperation :: string
  fillStyle :: "radial_gradient option"
  calls :: "ctx_call list"

record canvas =
  width :: real
  height :: real

definition getContext :: "canvas \<Rightarrow> context2d" where
  \<comment> \<open>A fresh 2D context: default compositing, default (non-gradient) fill style.\<close>
  "getContext c = \<lparr>globalCompositeOperation = ''source-over'', fillStyle = None, calls = []\<rparr>"

definition createRadialGradient ::
  "real \<Rightarrow> real \<Rightarrow> real \<Rightarrow> real \<Rightarrow> real \<Rightarrow> real \<Rightarrow> radial_gradient" where
  "createRadialGradient a0 b0 c0 a1 b1 c1 =
     \<lparr>x0 = a0, y0 = b0, r0 = c0, x1 = a1, y1 = b1, r1 = c1, colorStops = []\<rparr>"

definition addColorStop :: "real \<Rightarrow> css_color \<Rightarrow> radial_gradient \<Rightarrow> radial_gradient" where
  "addColorStop off c g = g\<lparr>colorStops := colorStops g @ [(off, c)]\<rparr>"

definition clearRect :: "real \<Rightarrow> real \<Rightarrow> real \<Rightarrow> real \<Rightarrow> context2d \<Rightarrow> context2d" where
  "clearRect a b w h c = c\<lparr>calls := calls c @ [ClearRect a b w h]\<rparr>"

definition fillRect :: "real \<Rightarrow> real \<Rightarrow> real \<Rightarrow> real \<Rightarrow> context2d \<Rightarrow> context2d" where
  "fillRect a b w h c = c\<lparr>calls := calls c @ [FillRect (fillStyle c) a b w h]\<rparr>"

section \<open>Particle2D\<close>

record color =
  RED :: real
  GREEN :: real
  BLUE :: real

text \<open>The fields \<^verbatim>\<open>x\<close> and \<^verbatim>\<open>y\<close> of a particle are \<open>p_x\<close> and \<open>p_y\<close> here.\<close>

record Particle2D =
  p_x :: real
  p_y :: real
  velocityX :: real
  velocityY :: real
  mass :: real
  alpha :: real
  burnRate :: real
  sharpness :: real
  color :: color

definition new_Particle2D :: "real \<Rightarrow> real \<Rightarrow> Particle2D" where
  "new_Particle2D a b =
     \<lparr>p_x = a, p_y = b, velocityX = 0, velocityY = 0, mass = 0, alpha = 0, burnRate = 0,
      sharpness = 0, color = \<lparr>RED = 0, GREEN = 0, BLUE = 0\<rparr>\<rparr>"

definition getColor :: "Particle2D \<Rightarrow> css_color" where
  "getColor p = Rgba (RED (color p)) (GREEN (color p)) (BLUE (color p)) (alpha p)"

definition draw :: "Particle2D \<Rightarrow> context2d \<Rightarrow> context2d" where
  "draw p context =
     (let size = mass p;
          halfSize = shr1 size;
          x = ToInt32 (p_x p);
          y = ToInt32 (p_y p);
          sizeSmall = of_int halfSize * sharpness p;
          radgrad = createRadialGradient (of_int (x + halfSize)) (of_int (y + halfSize)) sizeSmall
                      (of_int (x + halfSize)) (of_int (y + halfSize)) (of_int halfSize);
          radgrad = addColorStop 0 (getColor p) radgrad;
          radgrad = addColorStop 1 (Rgba 50 0 30 0) radgrad;
          context = context\<lparr>fillStyle := Some radgrad\<rparr>
      in fillRect (of_int x) (of_int y) size size context)"

section \<open>ParticleSystem\<close>

record dirtyRegion =
  xMin :: real
  xMax :: real
  yMin :: real
  yMax :: real

text \<open>
  The fields \<^verbatim>\<open>x\<close> and \<^verbatim>\<open>y\<close> of the system (the spawn position) are \<open>this_x\<close> and
  \<open>this_y\<close>; the field \<^verbatim>\<open>canvas\<close> is \<open>this_canvas\<close>. The array \<^verbatim>\<open>particles\<close> holds
  objects that \<^verbatim>\<open>spawn\<close> creates one by one, so no two entries alias and a list of
  values models it.
\<close>

record ParticleSystem =
  UNIVERSE_GRAVITY :: real
  UNIVERSE_FRICTION :: real
  PARTICLE_MASS_MIN :: real
  PARTICLE_MASS_MAX :: real
  PARTICLE_BURN_RATE :: real
  PARTICLE_SHARPNESS :: real
  PARTICLE_VELOCITY_X_MIN :: real
  PARTICLE_VELOCITY_X_MAX :: real
  PARTICLE_VELOCITY_Y_MIN :: real
  PARTICLE_VELOCITY_Y_MAX :: real
  SPAWN_COLOR :: color
  this_x :: real
  this_y :: real
  particles :: "Particle2D list"
  autoSpawn :: bool
  this_canvas :: canvas
  ctx :: context2d
  autoClear :: bool
  dirtyRegion :: dirtyRegion
  lastFrameTime :: real

definition new_ParticleSystem :: "canvas \<Rightarrow> ParticleSystem" where
  "new_ParticleSystem cv =
     \<lparr>UNIVERSE_GRAVITY = 0.0005,
      UNIVERSE_FRICTION = 0.02,
      PARTICLE_MASS_MIN = 30,
      PARTICLE_MASS_MAX = 60,
      PARTICLE_BURN_RATE = 0.97,
      PARTICLE_SHARPNESS = 0.2,
      PARTICLE_VELOCITY_X_MIN = - 0.055,
      PARTICLE_VELOCITY_X_MAX = 0.055,
      PARTICLE_VELOCITY_Y_MIN = - 0.18,
      PARTICLE_VELOCITY_Y_MAX = 0,
      SPAWN_COLOR = \<lparr>RED = 255, GREEN = 155, BLUE = 0\<rparr>,
      this_x = of_int (shr1 (width cv)),
      this_y = height cv * 0.8,
      particles = [],
      autoSpawn = False,
      this_canvas = cv,
      ctx = (getContext cv)\<lparr>globalCompositeOperation := ''lighter''\<rparr>,
      autoClear = True,
      dirtyRegion = \<lparr>xMin = 0, xMax = 0, yMin = 0, yMax = 0\<rparr>,
      lastFrameTime = - 1\<rparr>"

subsection \<open>drawNextFrame\<close>

definition frameMultiple :: "real \<Rightarrow> real" where
  \<comment> \<open>The frame delay multiple \<^verbatim>\<open>m\<close> of a time since the last frame, in milliseconds.\<close>
  "frameMultiple timeSinceLastFrame =
     (if timeSinceLastFrame = 0 then 1 else timeSinceLastFrame / (1000 / 60))"

definition advance :: "ParticleSystem \<Rightarrow> real \<Rightarrow> Particle2D \<Rightarrow> Particle2D option" where
  \<comment> \<open>"apply velocities and forces": the six assignments of the loop body, in order, each
      reading the particle as the assignments before it left it.\<close>
  "advance s m p =
     (let p = p\<lparr>p_x := p_x p + velocityX p * mass p * m\<rparr>;
          p = p\<lparr>p_y := p_y p + velocityY p * mass p * m\<rparr>
      in case Math_pow (1 - UNIVERSE_FRICTION s) m of None \<Rightarrow> None | Some fx \<Rightarrow>
        (let p = p\<lparr>velocityX := velocityX p * fx\<rparr>
         in case Math_pow (1 - UNIVERSE_FRICTION s) m of None \<Rightarrow> None | Some fy \<Rightarrow>
           (let p = p\<lparr>velocityY := velocityY p * fy\<rparr>;
                p = p\<lparr>velocityY := velocityY p + UNIVERSE_GRAVITY s * m\<rparr>
            in case Math_pow (burnRate p) m of None \<Rightarrow> None | Some br \<Rightarrow>
                 Some (p\<lparr>alpha := alpha p * br\<rparr>))))"

definition retired :: "ParticleSystem \<Rightarrow> Particle2D \<Rightarrow> bool" where
  \<comment> \<open>The test of "remove particles out of screen or alpha close to zero".\<close>
  "retired s p \<longleftrightarrow>
     alpha p \<le> 0.1 \<or> p_y p < 0 \<or> p_x p < 0 \<or> p_y p > height (this_canvas s)
       \<or> p_x p > width (this_canvas s)"

definition updateDirty :: "Particle2D \<Rightarrow> dirtyRegion \<Rightarrow> dirtyRegion" where
  \<comment> \<open>"update dirty region": four tests in sequence.\<close>
  "updateDirty p d =
     (let d = (if p_x p > xMax d then d\<lparr>xMax := p_x p\<rparr> else d);
          d = (if p_x p < xMin d then d\<lparr>xMin := p_x p\<rparr> else d);
          d = (if p_y p > yMax d then d\<lparr>yMax := p_y p\<rparr> else d);
          d = (if p_y p < yMin d then d\<lparr>yMin := p_y p\<rparr> else d)
      in d)"

definition loop_body :: "ParticleSystem \<Rightarrow> real \<Rightarrow> int \<Rightarrow> (ParticleSystem \<times> int) option" where
  \<comment> \<open>One pass through the body of the \<^verbatim>\<open>for\<close> loop at an index \<open>i\<close> below the length:
      the new system and the index as the body leaves it, before the loop's \<^verbatim>\<open>i++\<close>. At a
      negative index \<^verbatim>\<open>particles[i]\<close> is undefined and reading its field throws.\<close>
  "loop_body s m i =
     (if i < 0 then None else
      case advance s m (particles s ! nat i) of None \<Rightarrow> None | Some p \<Rightarrow>
        (let s = s\<lparr>particles := (particles s)[nat i := p]\<rparr>;
             s = s\<lparr>ctx := draw p (ctx s)\<rparr>
         in if retired s p
            then Some (s\<lparr>particles := take (nat i) (particles s) @ drop (nat i + 1) (particles s)\<rparr>,
                       i - 1)
            else if autoClear s
            then Some (s\<lparr>dirtyRegion := updateDirty p (dirtyRegion s)\<rparr>, i)
            else Some (s, i)))"

function draw_loop :: "ParticleSystem \<Rightarrow> real \<Rightarrow> int \<Rightarrow> ParticleSystem option" where
  "draw_loop s m i =
     (if i < int (length (particles s))
      then (case loop_body s m i of None \<Rightarrow> None | Some (s', i') \<Rightarrow> draw_loop s' m (i' + 1))
      else Some s)"
  by pat_completeness auto
termination
proof (relation "measure (\<lambda>(s, m, i). nat (int (length (particles s)) - i))")
  show "wf (measure (\<lambda>(s, m, i). nat (int (length (particles s)) - i)))"
    by simp
next
  fix s :: ParticleSystem and m :: real and i :: int and r s' i'
  assume rng: "i < int (length (particles s))"
    and body: "loop_body s m i = Some r" and r: "(s', i') = r"
  from body r rng have
    "0 \<le> i \<and> ((length (particles s') = length (particles s) - 1 \<and> i' = i - 1)
       \<or> (length (particles s') = length (particles s) \<and> i' = i))"
    by (auto simp: loop_body_def Let_def split: option.splits if_splits)
  with rng show "((s', m, i' + 1), (s, m, i)) \<in>
        measure (\<lambda>(s, m, i). nat (int (length (particles s)) - i))"
    by auto
qed

declare draw_loop.simps [simp del]

definition drawNextFrame :: "ParticleSystem \<Rightarrow> real \<Rightarrow> ParticleSystem option" where
  \<comment> \<open>\<open>time\<close> is the clock reading \<^verbatim>\<open>+new Date()\<close> of the call, in milliseconds.\<close>
  "drawNextFrame s time =
     (let timeSinceLastFrame = (if lastFrameTime s > 0 then time - lastFrameTime s else 0);
          s = s\<lparr>lastFrameTime := time\<rparr>;
          m = frameMultiple timeSinceLastFrame;
          s = (if autoClear s
               then (let margin = PARTICLE_MASS_MAX s * 2;
                         s = s\<lparr>ctx := clearRect
                                 (xMin (dirtyRegion s) - margin)
                                 (yMin (dirtyRegion s) - margin)
                                 (xMax (dirtyRegion s) - xMin (dirtyRegion s) + margin * 2)
                                 (yMax (dirtyRegion s) - yMin (dirtyRegion s) + margin * 2)
                                 (ctx s)\<rparr>;
                         s = s\<lparr>dirtyRegion := (dirtyRegion s)\<lparr>xMin := width (this_canvas s)\<rparr>\<rparr>;
                         s = s\<lparr>dirtyRegion := (dirtyRegion s)\<lparr>xMax := 0\<rparr>\<rparr>;
                         s = s\<lparr>dirtyRegion := (dirtyRegion s)\<lparr>yMin := height (this_canvas s)\<rparr>\<rparr>;
                         s = s\<lparr>dirtyRegion := (dirtyRegion s)\<lparr>yMax := 0\<rparr>\<rparr>
                     in s)
               else s)
      in draw_loop s m 0)"

subsection \<open>spawn\<close>

text \<open>
  \<^verbatim>\<open>Math.random()\<close> is the one input of \<^verbatim>\<open>spawn\<close> from outside: \<open>rnd k\<close> is the value of
  its \<open>k\<close>-th call, counted from the start of the call to \<^verbatim>\<open>spawn\<close>.
\<close>

definition spawn_one :: "ParticleSystem \<Rightarrow> (nat \<Rightarrow> real) \<Rightarrow> nat \<Rightarrow> ParticleSystem" where
  \<comment> \<open>The body of the loop of \<^verbatim>\<open>spawn\<close>, \<open>k\<close> values of \<open>rnd\<close> having been used.\<close>
  "spawn_one s rnd k =
     (let particle = new_Particle2D (this_x s) (this_y s);
          particle = particle\<lparr>velocityX :=
            rnd k * (PARTICLE_VELOCITY_X_MAX s - PARTICLE_VELOCITY_X_MIN s)
              + PARTICLE_VELOCITY_X_MIN s\<rparr>;
          particle = particle\<lparr>velocityY :=
            rnd (k + 1) * (PARTICLE_VELOCITY_Y_MAX s - PARTICLE_VELOCITY_Y_MIN s)
              + PARTICLE_VELOCITY_Y_MIN s\<rparr>;
          particle = particle\<lparr>mass :=
            rnd (k + 2) * (PARTICLE_MASS_MAX s - PARTICLE_MASS_MIN s) + PARTICLE_MASS_MIN s\<rparr>;
          particle = particle\<lparr>alpha := rnd (k + 3)\<rparr>;
          particle = particle\<lparr>burnRate := PARTICLE_BURN_RATE s\<rparr>;
          particle = particle\<lparr>sharpness := PARTICLE_SHARPNESS s\<rparr>;
          particle = particle\<lparr>color := (color particle)\<lparr>RED := RED (SPAWN_COLOR s)\<rparr>\<rparr>;
          particle = particle\<lparr>color := (color particle)\<lparr>GREEN := GREEN (SPAWN_COLOR s)\<rparr>\<rparr>;
          particle = particle\<lparr>color := (color particle)\<lparr>BLUE := BLUE (SPAWN_COLOR s)\<rparr>\<rparr>
      in s\<lparr>particles := particles s @ [particle]\<rparr>)"

function spawn_loop :: "ParticleSystem \<Rightarrow> (nat \<Rightarrow> real) \<Rightarrow> nat \<Rightarrow> int \<Rightarrow> ParticleSystem" where
  "spawn_loop s rnd k n =
     (if n > 0 then spawn_loop (spawn_one s rnd k) rnd (k + 4) (n - 1) else s)"
  by pat_completeness auto
termination
  by (relation "measure (\<lambda>(s, rnd, k, n). nat n)") auto

declare spawn_loop.simps [simp del]

definition spawn :: "ParticleSystem \<Rightarrow> (nat \<Rightarrow> real) \<Rightarrow> int \<Rightarrow> ParticleSystem" where
  "spawn s rnd n = spawn_loop s rnd 0 n"

subsection \<open>The per-second variant\<close>

text \<open>
  The second source file holds the same system with velocities in pixels per second.
  Its update reads the same two fields of the system and differs from \<open>advance\<close> in the
  division by 1000 of the two displacements.
\<close>

definition advance_per_second ::
  "ParticleSystem \<Rightarrow> real \<Rightarrow> Particle2D \<Rightarrow> Particle2D option" where
  "advance_per_second s m p =
     (let p = p\<lparr>p_x := p_x p + velocityX p * mass p * m / 1000\<rparr>;
          p = p\<lparr>p_y := p_y p + velocityY p * mass p * m / 1000\<rparr>
      in case Math_pow (1 - UNIVERSE_FRICTION s) m of None \<Rightarrow> None | Some fx \<Rightarrow>
        (let p = p\<lparr>velocityX := velocityX p * fx\<rparr>
         in case Math_pow (1 - UNIVERSE_FRICTION s) m of None \<Rightarrow> None | Some fy \<Rightarrow>
           (let p = p\<lparr>velocityY := velocityY p * fy\<rparr>;
                p = p\<lparr>velocityY := velocityY p + UNIVERSE_GRAVITY s * m\<rparr>
            in case Math_pow (burnRate p) m of None \<Rightarrow> None | Some br \<Rightarrow>
                 Some (p\<lparr>alpha := alpha p * br\<rparr>))))"

section \<open>Vocabulary of the properties\<close>

text \<open>
  Three parts of \<open>drawNextFrame\<close>, named so that the properties can refer to them: the
  frame multiple of a call at clock reading \<open>time\<close>, the context after the clearing of
  the dirty region, and the dirty region after its reset.
\<close>

definition frame_m :: "ParticleSystem \<Rightarrow> real \<Rightarrow> real" where
  "frame_m s time = frameMultiple (if lastFrameTime s > 0 then time - lastFrameTime s else 0)"

definition cleared_ctx :: "ParticleSystem \<Rightarrow> context2d" where
  "cleared_ctx s =
     (if autoClear s
      then clearRect
             (xMin (dirtyRegion s) - PARTICLE_MASS_MAX s * 2)
             (yMin (dirtyRegion s) - PARTICLE_MASS_MAX s * 2)
             (xMax (dirtyRegion s) - xMin (dirtyRegion s) + PARTICLE_MASS_MAX s * 2 * 2)
             (yMax (dirtyRegion s) - yMin (dirtyRegion s) + PARTICLE_MASS_MAX s * 2 * 2)
             (ctx s)
      else ctx s)"

definition reset_region :: "ParticleSystem \<Rightarrow> dirtyRegion" where
  "reset_region s =
     (if autoClear s
      then \<lparr>xMin = width (this_canvas s), xMax = 0, yMin = height (this_canvas s), yMax = 0\<rparr>
      else dirtyRegion s)"

definition on_surface :: "ParticleSystem \<Rightarrow> Particle2D \<Rightarrow> bool" where
  \<comment> \<open>The position lies in the closed rectangle from (0, 0) to (width, height).\<close>
  "on_surface s p \<longleftrightarrow>
     0 \<le> p_x p \<and> p_x p \<le> width (this_canvas s) \<and> 0 \<le> p_y p \<and> p_y p \<le> height (this_canvas s)"

fun advances :: "ParticleSystem \<Rightarrow> real list \<Rightarrow> Particle2D \<Rightarrow> Particle2D option" where
  \<comment> \<open>The particle after a sequence of frames with the given frame multiples.\<close>
  "advances s [] p = Some p"
| "advances s (m # ms) p = (case advance s m p of None \<Rightarrow> None | Some q \<Rightarrow> advances s ms q)"

definition two_frames :: "ParticleSystem \<Rightarrow> real \<Rightarrow> real \<Rightarrow> ParticleSystem option" where
  \<comment> \<open>Two calls of \<open>drawNextFrame\<close> in a row, at the clock readings \<open>t1\<close> and \<open>t2\<close>.\<close>
  "two_frames s t1 t2 =
     (case drawNextFrame s t1 of None \<Rightarrow> None | Some s1 \<Rightarrow> drawNextFrame s1 t2)"

definition per_second :: "Particle2D \<Rightarrow> Particle2D" where
  \<comment> \<open>The particle with its velocities in pixels per second instead of per millisecond.\<close>
  "per_second p = p\<lparr>velocityX := 1000 * velocityX p, velocityY := 1000 * velocityY p\<rparr>"

definition per_second_system :: "ParticleSystem \<Rightarrow> ParticleSystem" where
  \<comment> \<open>The system with its gravity scaled in the same way.\<close>
  "per_second_system s = s\<lparr>UNIVERSE_GRAVITY := 1000 * UNIVERSE_GRAVITY s\<rparr>"

definition draw_calls :: "Particle2D \<Rightarrow> ctx_call list" where
  \<comment> \<open>The calls that \<open>draw\<close> issues for a particle, as recorded on a context with none.\<close>
  "draw_calls p =
     calls (draw p \<lparr>globalCompositeOperation = [], fillStyle = None, calls = []\<rparr>)"

section \<open>Example inputs\<close>

text \<open>
  A 200 by 200 canvas, a system with the default parameters on it, and four particles: one
  in the middle of its life, one about to fade out, one on the right edge of the canvas and
  one just beyond it.
\<close>

definition ex_canvas :: canvas where
  "ex_canvas = \<lparr>width = 200, height = 200\<rparr>"

definition ex_particle :: "real \<Rightarrow> real \<Rightarrow> real \<Rightarrow> real \<Rightarrow> real \<Rightarrow> Particle2D" where
  "ex_particle a b vx vy al =
     (new_Particle2D a b)\<lparr>velocityX := vx, velocityY := vy, mass := 40, alpha := al,
        burnRate := 0.97, sharpness := 0.2, color := \<lparr>RED = 255, GREEN = 155, BLUE = 0\<rparr>\<rparr>"

definition ex_system :: ParticleSystem where
  "ex_system =
     (new_ParticleSystem ex_canvas)\<lparr>particles :=
        [ex_particle 100 160 0 0 0.5, ex_particle 50 50 0 0 0.1,
         ex_particle 200 100 0 0 1, ex_particle 201 100 0 0 1]\<rparr>"

definition ex_moving :: ParticleSystem where
  \<comment> \<open>One particle moving to the right, the last frame drawn at clock reading 1000.\<close>
  "ex_moving =
     (new_ParticleSystem ex_canvas)\<lparr>particles := [ex_particle 100 160 (1 / 20) 0 (1 / 2)],
        lastFrameTime := 1000\<rparr>"

definition ex_rnd :: "nat \<Rightarrow> real" where
  \<comment> \<open>A run of \<^verbatim>\<open>Math.random()\<close> that returns one half every time.\<close>
  "ex_rnd k = 1 / 2"

section \<open>The loop of drawNextFrame\<close>

lemma advance_cong:
  "UNIVERSE_FRICTION s' = UNIVERSE_FRICTION s \<Longrightarrow> UNIVERSE_GRAVITY s' = UNIVERSE_GRAVITY s
     \<Longrightarrow> advance s' m = advance s m"
  by (rule ext) (simp add: advance_def Let_def split: option.splits)

lemma draw_loop_run:
  assumes "map (advance s m) (drop i (particles s)) = map Some qs"
    and "i \<le> length (particles s)"
  shows "draw_loop s m (int i) =
           Some (s\<lparr>particles := take i (particles s) @ filter (\<lambda>q. \<not> retired s q) qs,
                   ctx := fold draw qs (ctx s),
                   dirtyRegion := (if autoClear s
                      then fold updateDirty (filter (\<lambda>q. \<not> retired s q) qs) (dirtyRegion s)
                      else dirtyRegion s)\<rparr>)"
  using assms
proof (induction qs arbitrary: s i)
  case Nil
  then have "i = length (particles s)" by simp
  then show ?case by (simp add: draw_loop.simps [of s m "int (length (particles s))"])
next
  case (Cons q qs)
  from Cons.prems obtain p rest where dr: "drop i (particles s) = p # rest"
    and adv: "advance s m p = Some q" and rest: "map (advance s m) rest = map Some qs"
    by (cases "drop i (particles s)") auto
  from dr Cons.prems have lt: "i < length (particles s)"
    by (metis drop_all leI list.distinct(1))
  from dr lt have pi: "particles s ! i = p"
    by (metis Cons_nth_drop_Suc list.inject)
  from dr lt have drS: "drop (Suc i) (particles s) = rest"
    by (metis Cons_nth_drop_Suc list.inject)
  show ?case
  proof (cases "retired s q")
    case True
    define s1 where "s1 = s\<lparr>particles := take i (particles s) @ rest, ctx := draw q (ctx s)\<rparr>"
    have body: "loop_body s m (int i) = Some (s1, int i - 1)"
      using adv pi True lt drS
      by (simp add: loop_body_def Let_def s1_def retired_def)
    have ih: "draw_loop s1 m (int i) = Some (s1\<lparr>particles := take i (particles s1) @ filter (\<lambda>q. \<not> retired s1 q) qs,
                   ctx := fold draw qs (ctx s1),
                   dirtyRegion := (if autoClear s1
                      then fold updateDirty (filter (\<lambda>q. \<not> retired s1 q) qs) (dirtyRegion s1)
                      else dirtyRegion s1)\<rparr>)"
    proof (rule Cons.IH)
      have "advance s1 m = advance s m" by (rule advance_cong) (simp_all add: s1_def)
      then show "map (advance s1 m) (drop i (particles s1)) = map Some qs"
        using rest lt by (simp add: s1_def)
      show "i \<le> length (particles s1)" using lt by (simp add: s1_def)
    qed
    have ret: "retired s1 = retired s"
      by (rule ext) (simp add: retired_def s1_def)
    have "draw_loop s m (int i) = draw_loop s1 m (int i)"
      using lt body by (subst draw_loop.simps) simp
    also note ih
    finally show ?thesis using True lt
      unfolding ret by (simp add: s1_def)
  next
    case False
    define s1 where "s1 = s\<lparr>particles := (particles s)[i := q], ctx := draw q (ctx s),
       dirtyRegion := (if autoClear s then updateDirty q (dirtyRegion s) else dirtyRegion s)\<rparr>"
    have body: "loop_body s m (int i) = Some (s1, int i)"
      using adv pi False lt
      by (simp add: loop_body_def Let_def s1_def retired_def)
    have ih: "draw_loop s1 m (int (Suc i)) = Some (s1\<lparr>particles := take (Suc i) (particles s1) @ filter (\<lambda>q. \<not> retired s1 q) qs,
                   ctx := fold draw qs (ctx s1),
                   dirtyRegion := (if autoClear s1
                      then fold updateDirty (filter (\<lambda>q. \<not> retired s1 q) qs) (dirtyRegion s1)
                      else dirtyRegion s1)\<rparr>)"
    proof (rule Cons.IH)
      have "advance s1 m = advance s m" by (rule advance_cong) (simp_all add: s1_def)
      then show "map (advance s1 m) (drop (Suc i) (particles s1)) = map Some qs"
        using rest lt drS by (simp add: s1_def)
      show "Suc i \<le> length (particles s1)" using lt by (simp add: s1_def)
    qed
    have ret: "retired s1 = retired s"
      by (rule ext) (simp add: retired_def s1_def)
    have "draw_loop s m (int i) = draw_loop s1 m (int (Suc i))"
      using lt body by (subst draw_loop.simps) (simp add: add.commute)
    also note ih
    finally show ?thesis using False lt
      unfolding ret by (simp add: s1_def take_Suc_conv_app_nth)
  qed
qed

lemma draw_loop_defined:
  "draw_loop s m i = Some s' \<Longrightarrow> 0 \<le> i \<Longrightarrow>
     \<exists>qs. map (advance s m) (drop (nat i) (particles s)) = map Some qs"
proof (induction s m i rule: draw_loop.induct)
  case (1 s m i)
  show ?case
  proof (cases "i < int (length (particles s))")
    case False
    then show ?thesis using "1.prems" by simp
  next
    case True
    with "1.prems" obtain s1 i1 where body: "loop_body s m i = Some (s1, i1)"
      and rec: "draw_loop s1 m (i1 + 1) = Some s'"
      by (subst (asm) draw_loop.simps) (auto split: option.splits)
    from body "1.prems" obtain q where adv: "advance s m (particles s ! nat i) = Some q"
      by (auto simp: loop_body_def split: option.splits if_splits)
    from body adv "1.prems" have
      eq: "drop (nat (i1 + 1)) (particles s1) = drop (Suc (nat i)) (particles s)" 
      and fr: "UNIVERSE_FRICTION s1 = UNIVERSE_FRICTION s" "UNIVERSE_GRAVITY s1 = UNIVERSE_GRAVITY s"
      and i1: "0 \<le> i1 + 1"
      using True
      by (auto simp: loop_body_def Let_def nat_add_distrib  split: option.splits if_splits)
    from "1.IH"[OF True body refl rec i1] obtain qs where
      "map (advance s1 m) (drop (nat (i1 + 1)) (particles s1)) = map Some qs" by blast
    with eq fr have "map (advance s m) (drop (Suc (nat i)) (particles s)) = map Some qs"
      by (simp add: advance_cong [of s1 s])
    moreover have "drop (nat i) (particles s) = particles s ! nat i # drop (Suc (nat i)) (particles s)"
      using True "1.prems" by (simp add: Cons_nth_drop_Suc)
    ultimately have "map (advance s m) (drop (nat i) (particles s)) = map Some (q # qs)"
      using adv by simp
    then show ?thesis by blast
  qed
qed

lemma dirtyRegion_reset:
  "(d::dirtyRegion)\<lparr>xMin := a, xMax := b, yMin := c, yMax := e\<rparr>
     = \<lparr>xMin = a, xMax = b, yMin = c, yMax = e\<rparr>"
  by (cases d) simp

lemma drawNextFrame_prepare:
  "drawNextFrame s time =
     draw_loop (s\<lparr>lastFrameTime := time, ctx := cleared_ctx s, dirtyRegion := reset_region s\<rparr>)
       (frame_m s time) 0"
  by (simp add: drawNextFrame_def Let_def frame_m_def cleared_ctx_def reset_region_def
      dirtyRegion_reset)

lemma drawNextFrame_run:
  assumes "map (advance s (frame_m s time)) (particles s) = map Some qs"
  shows "drawNextFrame s time =
           Some (s\<lparr>lastFrameTime := time,
                   particles := filter (\<lambda>q. \<not> retired s q) qs,
                   ctx := fold draw qs (cleared_ctx s),
                   dirtyRegion := (if autoClear s
                      then fold updateDirty (filter (\<lambda>q. \<not> retired s q) qs) (reset_region s)
                      else dirtyRegion s)\<rparr>)"
proof -
  define s0 where
    "s0 = s\<lparr>lastFrameTime := time, ctx := cleared_ctx s, dirtyRegion := reset_region s\<rparr>"
  have adv: "advance s0 (frame_m s time) = advance s (frame_m s time)"
    by (rule advance_cong) (simp_all add: s0_def)
  have ret: "retired s0 = retired s"
    by (rule ext) (simp add: retired_def s0_def)
  have "draw_loop s0 (frame_m s time) (int 0) =
          Some (s0\<lparr>particles := take 0 (particles s0) @ filter (\<lambda>q. \<not> retired s0 q) qs,
                   ctx := fold draw qs (ctx s0),
                   dirtyRegion := (if autoClear s0
                      then fold updateDirty (filter (\<lambda>q. \<not> retired s0 q) qs) (dirtyRegion s0)
                      else dirtyRegion s0)\<rparr>)"
    by (rule draw_loop_run) (simp_all add: adv assms, simp add: s0_def assms)
  then show ?thesis
    unfolding ret drawNextFrame_prepare s0_def [symmetric]
    by (simp add: s0_def reset_region_def)
qed

lemma drawNextFrame_defined:
  assumes "drawNextFrame s time = Some s'"
  shows "\<exists>qs. map (advance s (frame_m s time)) (particles s) = map Some qs"
proof -
  define s0 where
    "s0 = s\<lparr>lastFrameTime := time, ctx := cleared_ctx s, dirtyRegion := reset_region s\<rparr>"
  have adv: "advance s0 (frame_m s time) = advance s (frame_m s time)"
    by (rule advance_cong) (simp_all add: s0_def)
  from assms have "draw_loop s0 (frame_m s time) 0 = Some s'"
    by (simp add: drawNextFrame_prepare s0_def)
  from draw_loop_defined [OF this] show ?thesis
    by (simp add: adv) (simp add: s0_def)
qed

lemma updateDirty_bounds:
  "xMin (updateDirty p d) \<le> p_x p \<and> p_x p \<le> xMax (updateDirty p d)
     \<and> yMin (updateDirty p d) \<le> p_y p \<and> p_y p \<le> yMax (updateDirty p d)"
  by (simp add: updateDirty_def Let_def)

lemma updateDirty_grows:
  "xMin (updateDirty p d) \<le> xMin d \<and> xMax d \<le> xMax (updateDirty p d)
     \<and> yMin (updateDirty p d) \<le> yMin d \<and> yMax d \<le> yMax (updateDirty p d)"
  by (simp add: updateDirty_def Let_def)

lemma fold_updateDirty_grows:
  "xMin (fold updateDirty qs d) \<le> xMin d \<and> xMax d \<le> xMax (fold updateDirty qs d)
     \<and> yMin (fold updateDirty qs d) \<le> yMin d \<and> yMax d \<le> yMax (fold updateDirty qs d)"
proof (induction qs arbitrary: d)
  case Nil
  show ?case by simp
next
  case (Cons q qs)
  from Cons.IH [of "updateDirty q d"] updateDirty_grows [of q d]
  show ?case by simp
qed

lemma fold_updateDirty_bounds:
  "q \<in> set qs \<Longrightarrow>
     xMin (fold updateDirty qs d) \<le> p_x q \<and> p_x q \<le> xMax (fold updateDirty qs d)
       \<and> yMin (fold updateDirty qs d) \<le> p_y q \<and> p_y q \<le> yMax (fold updateDirty qs d)"
proof (induction qs arbitrary: d)
  case Nil
  then show ?case by simp
next
  case (Cons a qs)
  show ?case
  proof (cases "q = a")
    case True
    from fold_updateDirty_grows [of qs "updateDirty a d"] updateDirty_bounds [of a d] True
    show ?thesis by simp
  next
    case False
    with Cons.prems have "q \<in> set qs" by simp
    from Cons.IH [OF this, of "updateDirty a d"] show ?thesis by simp
  qed
qed

lemma calls_draw: "calls (draw p c) = calls c @ draw_calls p"
  by (simp add: draw_calls_def draw_def Let_def fillRect_def)

lemma calls_fold_draw: "calls (fold draw qs c) = calls c @ concat (map draw_calls qs)"
  by (induction qs arbitrary: c) (simp_all add: calls_draw)

lemma Math_pow_pos: "0 < b \<Longrightarrow> Math_pow b e = Some (if e = 0 then 1 else b powr e)"
  by (simp add: Math_pow_def)

lemma advance_defined:
  "UNIVERSE_FRICTION s < 1 \<Longrightarrow> 0 < burnRate p \<Longrightarrow> \<exists>q. advance s m p = Some q"
  by (simp add: advance_def Math_pow_pos Let_def)

lemma advance_all_defined:
  "UNIVERSE_FRICTION s < 1 \<Longrightarrow> \<forall>p\<in>set ps. 0 < burnRate p \<Longrightarrow>
     \<exists>qs. map (advance s m) ps = map Some qs"
proof (induction ps)
  case Nil
  show ?case by simp
next
  case (Cons p ps)
  then obtain qs where "map (advance s m) ps = map Some qs" by auto
  moreover from Cons.prems obtain q where "advance s m p = Some q"
    using advance_defined [of s p m] by auto
  ultimately have "map (advance s m) (p # ps) = map Some (q # qs)" by simp
  then show ?case by blast
qed

lemma drawNextFrame_returns:
  assumes "UNIVERSE_FRICTION s < 1" and "\<forall>p\<in>set (particles s). 0 < burnRate p"
  shows "\<exists>s'. drawNextFrame s time = Some s'"
proof -
  from advance_all_defined [OF assms] obtain qs
    where "map (advance s (frame_m s time)) (particles s) = map Some qs" by blast
  from drawNextFrame_run [OF this] show ?thesis by blast
qed

lemma ex_frame_m: "frame_m ex_system 1000 = 1"
  by (simp add: frame_m_def frameMultiple_def ex_system_def new_ParticleSystem_def)

lemma ex_advance:
  "advance ex_system 1 (ex_particle a b 0 0 al) =
     Some ((ex_particle a b 0 (1 / 2000) (al * 97 / 100)))"
  by (simp add: advance_def ex_system_def new_ParticleSystem_def ex_particle_def
      new_Particle2D_def Math_pow_def Let_def)

lemma ex_particles:
  "particles ex_system =
     [ex_particle 100 160 0 0 0.5, ex_particle 50 50 0 0 0.1,
      ex_particle 200 100 0 0 1, ex_particle 201 100 0 0 1]"
  by (simp add: ex_system_def)

lemma ex_updated:
  "map (advance ex_system (frame_m ex_system 1000)) (particles ex_system) =
     map Some [ex_particle 100 160 0 (1 / 2000) (97 / 200), ex_particle 50 50 0 (1 / 2000) (97 / 1000),
               ex_particle 200 100 0 (1 / 2000) (97 / 100), ex_particle 201 100 0 (1 / 2000) (97 / 100)]"
  unfolding ex_frame_m by (simp add: ex_particles ex_advance)

lemma ex_retired:
  "retired ex_system (ex_particle a b vx vy al) \<longleftrightarrow>
     al \<le> 1 / 10 \<or> b < 0 \<or> a < 0 \<or> b > 200 \<or> a > 200"
  by (simp add: retired_def ex_system_def new_ParticleSystem_def ex_particle_def
      new_Particle2D_def ex_canvas_def)

lemma ex_particles_after:
  "map_option particles (drawNextFrame ex_system 1000) =
     Some [ex_particle 100 160 0 (1 / 2000) (97 / 200), ex_particle 200 100 0 (1 / 2000) (97 / 100)]"
  by (simp add: drawNextFrame_run [OF ex_updated] ex_retired)

lemma map_Some_eq: "map Some xs = map Some ys \<Longrightarrow> xs = ys"
  by (simp add: inj_map_eq_map)

lemma draw_calls_length: "length (draw_calls p) = 1"
  by (simp add: draw_calls_def draw_def Let_def fillRect_def)

lemma concat_draw_calls: "concat (map draw_calls qs) = map (\<lambda>q. hd (draw_calls q)) qs"
proof (induction qs)
  case Nil
  show ?case by simp
next
  case (Cons q qs)
  have "draw_calls q = [hd (draw_calls q)]"
    using draw_calls_length [of q] by (cases "draw_calls q") simp_all
  with Cons show ?case by simp
qed

lemma retired_iff: "retired s q \<longleftrightarrow> \<not> (0.1 < alpha q \<and> on_surface s q)"
  by (auto simp: retired_def on_surface_def)

section \<open>The claims about drawNextFrame\<close>

text \<open>
  C9. A call of \<open>drawNextFrame\<close> that returns has updated every particle of the live set
  once, in order (\<open>qs\<close> is the list of the updated particles, one for each particle
  present at the start), has drawn each updated particle once, in the same order and
  after the clearing of the dirty region, and leaves as the live set the updated
  particles that do not meet the removal test, in order. No particle is skipped when
  an earlier one is removed.
\<close>

theorem frame_updates_draws_filters:
  assumes "drawNextFrame s time = Some s'"
  shows "\<exists>qs. map (advance s (frame_m s time)) (particles s) = map Some qs
           \<and> particles s' = filter (\<lambda>q. \<not> retired s q) qs
           \<and> ctx s' = fold draw qs (cleared_ctx s)
           \<and> calls (ctx s') = calls (cleared_ctx s) @ concat (map draw_calls qs)
           \<and> (\<forall>q. length (draw_calls q) = 1)"
proof -
  from drawNextFrame_defined [OF assms] obtain qs
    where qs: "map (advance s (frame_m s time)) (particles s) = map Some qs" by blast
  from drawNextFrame_run [OF qs] assms
  have "particles s' = filter (\<lambda>q. \<not> retired s q) qs" and "ctx s' = fold draw qs (cleared_ctx s)"
    by auto
  with qs show ?thesis
    by (auto simp: calls_fold_draw draw_calls_length)
qed

theorem frame_updates_draws_filters_witness:
  "drawNextFrame ex_system 1000 \<noteq> None
     \<and> particles (the (drawNextFrame ex_system 1000)) =
         [ex_particle 100 160 0 (1 / 2000) (97 / 200), ex_particle 200 100 0 (1 / 2000) (97 / 100)]
     \<and> length (calls (ctx (the (drawNextFrame ex_system 1000)))) = 5"
proof -
  from drawNextFrame_run [OF ex_updated] obtain s'
    where s': "drawNextFrame ex_system 1000 = Some s'" by blast
  from frame_updates_draws_filters [OF s'] obtain qs
    where qs: "map (advance ex_system (frame_m ex_system 1000)) (particles ex_system) = map Some qs"
      and ps: "particles s' = filter (\<lambda>q. \<not> retired ex_system q) qs"
      and cs: "calls (ctx s') = calls (cleared_ctx ex_system) @ concat (map draw_calls qs)"
      and one: "\<forall>q. length (draw_calls q) = 1"
    by blast
  from qs ex_updated have qs_eq:
    "qs = [ex_particle 100 160 0 (1 / 2000) (97 / 200), ex_particle 50 50 0 (1 / 2000) (97 / 1000),
           ex_particle 200 100 0 (1 / 2000) (97 / 100), ex_particle 201 100 0 (1 / 2000) (97 / 100)]"
    by (simp add: map_Some_eq)
  have cl: "length (calls (cleared_ctx ex_system)) = 1"
    by (simp add: cleared_ctx_def clearRect_def ex_system_def new_ParticleSystem_def getContext_def)
  from ps cs one cl show ?thesis
    by (simp add: s' qs_eq ex_retired)
qed

lemma map_Some_the: "map f xs = map Some ys \<Longrightarrow> ys = map (\<lambda>x. the (f x)) xs"
  by (induction xs arbitrary: ys) auto

text \<open>
  C2. In a call of \<open>drawNextFrame\<close>, a particle \<open>p\<close> of the live set, updated to \<open>q\<close>, is in
  the live set after the call if and only if it is not the case that its alpha is at
  most 0.1 or its position is outside the closed rectangle from (0, 0) to
  (width, height). A particle exactly on the right edge stays. The number of particles
  left is the number of particles whose update passes this test.
\<close>

theorem retirement_rule:
  assumes "drawNextFrame s time = Some s'"
    and "p \<in> set (particles s)"
    and "advance s (frame_m s time) p = Some q"
  shows "(q \<in> set (particles s') \<longleftrightarrow> \<not> (alpha q \<le> 0.1 \<or> \<not> on_surface s q))
     \<and> (0.1 < alpha q \<and> p_x q = width (this_canvas s) \<and> 0 \<le> p_x q \<and> 0 \<le> p_y q
           \<and> p_y q \<le> height (this_canvas s) \<longrightarrow> q \<in> set (particles s'))
     \<and> length (particles s') =
         length (filter (\<lambda>p. \<not> (alpha (the (advance s (frame_m s time) p)) \<le> 0.1
                 \<or> \<not> on_surface s (the (advance s (frame_m s time) p)))) (particles s))"
proof -
  from drawNextFrame_defined [OF assms(1)] obtain qs
    where qs: "map (advance s (frame_m s time)) (particles s) = map Some qs" by blast
  from drawNextFrame_run [OF qs] assms(1)
  have ps: "particles s' = filter (\<lambda>q. \<not> retired s q) qs" by auto
  from assms(2,3) have "Some q \<in> set (map (advance s (frame_m s time)) (particles s))"
    by force
  with qs have "q \<in> set qs" by auto
  with ps have mem: "q \<in> set (particles s') \<longleftrightarrow> \<not> retired s q" by simp
  from qs have "qs = map (\<lambda>p. the (advance s (frame_m s time) p)) (particles s)"
    by (rule map_Some_the)
  with ps have len: "length (particles s') =
      length (filter (\<lambda>p. \<not> retired s (the (advance s (frame_m s time) p))) (particles s))"
    by (simp add: filter_map o_def)
  have edge: "0.1 < alpha q \<and> p_x q = width (this_canvas s) \<and> 0 \<le> p_x q \<and> 0 \<le> p_y q
           \<and> p_y q \<le> height (this_canvas s) \<longrightarrow> q \<in> set (particles s')"
    unfolding mem retired_iff by (simp add: on_surface_def)
  have neg: "\<And>r. (\<not> (alpha r \<le> 0.1 \<or> \<not> on_surface s r)) = (\<not> retired s r)"
    unfolding retired_iff by auto
  from mem len edge show ?thesis
    unfolding neg by blast
qed

theorem retirement_rule_witness:
  "drawNextFrame ex_system 1000 \<noteq> None
     \<and> ex_particle 200 100 0 0 1 \<in> set (particles ex_system)
     \<and> advance ex_system (frame_m ex_system 1000) (ex_particle 200 100 0 0 1) =
          Some (ex_particle 200 100 0 (1 / 2000) (97 / 100))
     \<and> p_x (ex_particle 200 100 0 (1 / 2000) (97 / 100)) = width (this_canvas ex_system)
     \<and> ex_particle 200 100 0 (1 / 2000) (97 / 100)
          \<in> set (particles (the (drawNextFrame ex_system 1000)))"
proof -
  from drawNextFrame_run [OF ex_updated] obtain s'
    where s': "drawNextFrame ex_system 1000 = Some s'" by blast
  have mem: "ex_particle 200 100 0 0 1 \<in> set (particles ex_system)"
    by (simp add: ex_particles)
  have adv: "advance ex_system (frame_m ex_system 1000) (ex_particle 200 100 0 0 1) =
          Some (ex_particle 200 100 0 (1 / 2000) (97 / 100))"
    by (simp add: ex_frame_m ex_advance)
  have edge: "p_x (ex_particle 200 100 0 (1 / 2000) (97 / 100)) = width (this_canvas ex_system)"
    and rest: "0.1 < alpha (ex_particle 200 100 0 (1 / 2000) (97 / 100))"
      "0 \<le> p_x (ex_particle 200 100 0 (1 / 2000) (97 / 100))"
      "0 \<le> p_y (ex_particle 200 100 0 (1 / 2000) (97 / 100))"
      "p_y (ex_particle 200 100 0 (1 / 2000) (97 / 100)) \<le> height (this_canvas ex_system)"
    by (simp_all add: ex_particle_def new_Particle2D_def ex_system_def new_ParticleSystem_def
        ex_canvas_def)
  from retirement_rule [OF s' mem adv] edge rest
  have "ex_particle 200 100 0 (1 / 2000) (97 / 100) \<in> set (particles s')" by blast
  with s' mem adv edge show ?thesis by simp
qed

text \<open>
  C6. With dirty-region tracking enabled, after a call of \<open>drawNextFrame\<close> the tracked
  box bounds the position of every particle still live, and so does the box inflated by
  the margin of twice the maximum particle mass (a mass, not negative).
\<close>

theorem dirty_region_bounds:
  assumes "autoClear s" and "drawNextFrame s time = Some s'" and "q \<in> set (particles s')"
  shows "xMin (dirtyRegion s') \<le> p_x q \<and> p_x q \<le> xMax (dirtyRegion s')
     \<and> yMin (dirtyRegion s') \<le> p_y q \<and> p_y q \<le> yMax (dirtyRegion s')
     \<and> PARTICLE_MASS_MAX s' = PARTICLE_MASS_MAX s
     \<and> (0 \<le> PARTICLE_MASS_MAX s' \<longrightarrow>
          xMin (dirtyRegion s') - PARTICLE_MASS_MAX s' * 2 \<le> p_x q
          \<and> p_x q \<le> xMax (dirtyRegion s') + PARTICLE_MASS_MAX s' * 2
          \<and> yMin (dirtyRegion s') - PARTICLE_MASS_MAX s' * 2 \<le> p_y q
          \<and> p_y q \<le> yMax (dirtyRegion s') + PARTICLE_MASS_MAX s' * 2)"
proof -
  from drawNextFrame_defined [OF assms(2)] obtain qs
    where qs: "map (advance s (frame_m s time)) (particles s) = map Some qs" by blast
  from drawNextFrame_run [OF qs] assms(1,2)
  have ps: "particles s' = filter (\<lambda>q. \<not> retired s q) qs"
    and dr: "dirtyRegion s' = fold updateDirty (filter (\<lambda>q. \<not> retired s q) qs) (reset_region s)"
    and mm: "PARTICLE_MASS_MAX s' = PARTICLE_MASS_MAX s"
    by auto
  from assms(3) ps have "q \<in> set (filter (\<lambda>q. \<not> retired s q) qs)" by simp
  from fold_updateDirty_bounds [OF this, of "reset_region s"] dr
  have box: "xMin (dirtyRegion s') \<le> p_x q \<and> p_x q \<le> xMax (dirtyRegion s')
     \<and> yMin (dirtyRegion s') \<le> p_y q \<and> p_y q \<le> yMax (dirtyRegion s')"
    by simp
  with mm show ?thesis by auto
qed

lemma ex_dirty_after:
  "map_option dirtyRegion (drawNextFrame ex_system 1000) =
     Some \<lparr>xMin = 100, xMax = 200, yMin = 100, yMax = 160\<rparr>"
  by (simp add: drawNextFrame_run [OF ex_updated] ex_retired)
     (simp add: ex_system_def new_ParticleSystem_def reset_region_def updateDirty_def
        ex_particle_def new_Particle2D_def ex_canvas_def Let_def)

theorem dirty_region_bounds_witness:
  "autoClear ex_system \<and> drawNextFrame ex_system 1000 \<noteq> None
     \<and> ex_particle 200 100 0 (1 / 2000) (97 / 100)
          \<in> set (particles (the (drawNextFrame ex_system 1000)))
     \<and> 0 \<le> PARTICLE_MASS_MAX (the (drawNextFrame ex_system 1000))
     \<and> xMin (dirtyRegion (the (drawNextFrame ex_system 1000))) - 120 \<le> 200
     \<and> 200 \<le> xMax (dirtyRegion (the (drawNextFrame ex_system 1000))) + 120
     \<and> dirtyRegion (the (drawNextFrame ex_system 1000)) =
          \<lparr>xMin = 100, xMax = 200, yMin = 100, yMax = 160\<rparr>"
proof -
  from drawNextFrame_run [OF ex_updated] obtain s'
    where s': "drawNextFrame ex_system 1000 = Some s'" by blast
  have ac: "autoClear ex_system"
    by (simp add: ex_system_def new_ParticleSystem_def)
  have mm: "PARTICLE_MASS_MAX ex_system = 60"
    by (simp add: ex_system_def new_ParticleSystem_def)
  from ex_particles_after s'
  have mem: "ex_particle 200 100 0 (1 / 2000) (97 / 100) \<in> set (particles s')" by simp
  have px: "p_x (ex_particle 200 100 0 (1 / 2000) (97 / 100)) = 200"
    by (simp add: ex_particle_def new_Particle2D_def)
  from ex_dirty_after s'
  have dr: "dirtyRegion s' = \<lparr>xMin = 100, xMax = 200, yMin = 100, yMax = 160\<rparr>" by simp
  from dirty_region_bounds [OF ac s' mem] mm px
  have "0 \<le> PARTICLE_MASS_MAX s' \<and> xMin (dirtyRegion s') - 120 \<le> 200
     \<and> 200 \<le> xMax (dirtyRegion s') + 120"
    by simp
  with ac s' mem dr show ?thesis by simp
qed

text \<open>
  C10. A particle that meets the removal test in a call of \<open>drawNextFrame\<close> (\<open>q\<close>, the update
  of the particle at index \<open>j\<close>) is drawn in that call all the same: the call of the context
  at its place in the frame is its draw, in its updated state, and the frame makes one
  call for each particle. It is then gone from the live set, and the dirty region after
  the call is built from the positions of the particles that stay only.
\<close>

theorem retired_particle_drawn_once:
  assumes "drawNextFrame s time = Some s'"
    and "j < length (particles s)"
    and "advance s (frame_m s time) (particles s ! j) = Some q"
    and "retired s q"
  shows "take 1 (drop (length (calls (cleared_ctx s)) + j) (calls (ctx s'))) = draw_calls q
     \<and> length (calls (ctx s')) = length (calls (cleared_ctx s)) + length (particles s)
     \<and> length (particles s') < length (particles s)
     \<and> q \<notin> set (particles s')
     \<and> dirtyRegion s' =
          (if autoClear s then fold updateDirty (particles s') (reset_region s)
           else dirtyRegion s)"
proof -
  from drawNextFrame_defined [OF assms(1)] obtain qs
    where qs: "map (advance s (frame_m s time)) (particles s) = map Some qs" by blast
  from drawNextFrame_run [OF qs] assms(1)
  have ps: "particles s' = filter (\<lambda>q. \<not> retired s q) qs"
    and cx: "ctx s' = fold draw qs (cleared_ctx s)"
    and dr: "dirtyRegion s' = (if autoClear s
               then fold updateDirty (filter (\<lambda>q. \<not> retired s q) qs) (reset_region s)
               else dirtyRegion s)"
    by auto
  from qs have len: "length qs = length (particles s)"
    by (metis length_map)
  from qs assms(2) have "map (advance s (frame_m s time)) (particles s) ! j = map Some qs ! j"
    by simp
  with assms(2,3) len have qj: "qs ! j = q" by simp
  have one: "draw_calls q = [hd (draw_calls q)]"
    using draw_calls_length [of q] by (cases "draw_calls q") simp_all
  have cs: "calls (ctx s') = calls (cleared_ctx s) @ map (\<lambda>q. hd (draw_calls q)) qs"
    by (simp add: cx calls_fold_draw concat_draw_calls)
  from assms(2) len qj have
    "take 1 (drop j (map (\<lambda>q. hd (draw_calls q)) qs)) = [hd (draw_calls q)]"
    by (simp add: take_Suc_conv_app_nth drop_map [symmetric] Cons_nth_drop_Suc [symmetric])
  with one have c1: "take 1 (drop (length (calls (cleared_ctx s)) + j) (calls (ctx s'))) = draw_calls q"
    by (simp add: cs)
  have c2: "length (calls (ctx s')) = length (calls (cleared_ctx s)) + length (particles s)"
    by (simp add: cs len)
  from assms(2) len qj have qin: "q \<in> set qs" by (metis nth_mem)
  with assms(4) have "length (filter (\<lambda>q. \<not> retired s q) qs) < length qs"
    by (simp add: length_filter_less)
  with ps len have c3: "length (particles s') < length (particles s)" by simp
  from ps assms(4) have c4: "q \<notin> set (particles s')" by simp
  from dr ps have c5: "dirtyRegion s' =
          (if autoClear s then fold updateDirty (particles s') (reset_region s)
           else dirtyRegion s)"
    by simp
  from c1 c2 c3 c4 c5 show ?thesis by blast
qed


theorem retired_particle_drawn_once_witness:
  "drawNextFrame ex_system 1000 \<noteq> None
     \<and> (1::nat) < length (particles ex_system)
     \<and> advance ex_system (frame_m ex_system 1000) (particles ex_system ! 1) =
          Some (ex_particle 50 50 0 (1 / 2000) (97 / 1000))
     \<and> retired ex_system (ex_particle 50 50 0 (1 / 2000) (97 / 1000))
     \<and> take 1 (drop 2 (calls (ctx (the (drawNextFrame ex_system 1000))))) =
          draw_calls (ex_particle 50 50 0 (1 / 2000) (97 / 1000))
     \<and> ex_particle 50 50 0 (1 / 2000) (97 / 1000)
          \<notin> set (particles (the (drawNextFrame ex_system 1000)))"
proof -
  from drawNextFrame_run [OF ex_updated] obtain s'
    where s': "drawNextFrame ex_system 1000 = Some s'" by blast
  have j: "(1::nat) < length (particles ex_system)"
    by (simp add: ex_particles)
  have adv: "advance ex_system (frame_m ex_system 1000) (particles ex_system ! 1) =
          Some (ex_particle 50 50 0 (1 / 2000) (97 / 1000))"
    by (simp add: ex_frame_m ex_particles ex_advance)
  have ret: "retired ex_system (ex_particle 50 50 0 (1 / 2000) (97 / 1000))"
    by (simp add: ex_retired)
  have cl: "length (calls (cleared_ctx ex_system)) = 1"
    by (simp add: cleared_ctx_def clearRect_def ex_system_def new_ParticleSystem_def
        getContext_def)
  from retired_particle_drawn_once [OF s' j adv ret] cl
  have "take 1 (drop 2 (calls (ctx s'))) = draw_calls (ex_particle 50 50 0 (1 / 2000) (97 / 1000))
     \<and> ex_particle 50 50 0 (1 / 2000) (97 / 1000) \<notin> set (particles s')"
    by (simp add: numeral_2_eq_2)
  with s' j adv ret show ?thesis by simp
qed

lemma advance_SomeE:
  assumes "advance s m p = Some q"
  obtains fr br where "Math_pow (1 - UNIVERSE_FRICTION s) m = Some fr"
    and "Math_pow (burnRate p) m = Some br"
    and "q = p\<lparr>p_x := p_x p + velocityX p * mass p * m,
               p_y := p_y p + velocityY p * mass p * m,
               velocityX := velocityX p * fr,
               velocityY := velocityY p * fr + UNIVERSE_GRAVITY s * m,
               alpha := alpha p * br\<rparr>"
  using assms by (auto simp: advance_def Let_def split: option.splits)

section \<open>The claims about the update of one particle\<close>

text \<open>
  C5. An update that has a value changes the particle in this order: the position moves
  by velocity times mass times \<open>m\<close>, with the velocity as it was before the update; then
  both velocity components are multiplied by the friction factor \<open>(1 - friction)^m\<close>; then
  gravity times \<open>m\<close> is added to the vertical velocity (after the friction, so it is not
  damped in this tick); then alpha is multiplied by \<open>burnRate^m\<close>. Nothing else changes. The
  friction and the gravity of this tick show in the displacement of the next tick only.
\<close>

theorem update_order:
  assumes "advance s m p = Some q"
  shows "\<exists>fr br. Math_pow (1 - UNIVERSE_FRICTION s) m = Some fr
           \<and> Math_pow (burnRate p) m = Some br
           \<and> p_x q = p_x p + velocityX p * mass p * m
           \<and> p_y q = p_y p + velocityY p * mass p * m
           \<and> velocityX q = velocityX p * fr
           \<and> velocityY q = velocityY p * fr + UNIVERSE_GRAVITY s * m
           \<and> alpha q = alpha p * br
           \<and> mass q = mass p \<and> burnRate q = burnRate p \<and> sharpness q = sharpness p
           \<and> color q = color p
           \<and> (\<forall>n r. advance s n q = Some r \<longrightarrow>
                 p_x r - p_x q = velocityX p * fr * mass p * n
                 \<and> p_y r - p_y q = (velocityY p * fr + UNIVERSE_GRAVITY s * m) * mass p * n)"
proof -
  from assms obtain fr br where fr: "Math_pow (1 - UNIVERSE_FRICTION s) m = Some fr"
    and br: "Math_pow (burnRate p) m = Some br"
    and q: "q = p\<lparr>p_x := p_x p + velocityX p * mass p * m,
               p_y := p_y p + velocityY p * mass p * m,
               velocityX := velocityX p * fr,
               velocityY := velocityY p * fr + UNIVERSE_GRAVITY s * m,
               alpha := alpha p * br\<rparr>"
    by (rule advance_SomeE)
  have next_tick: "p_x r - p_x q = velocityX p * fr * mass p * n
       \<and> p_y r - p_y q = (velocityY p * fr + UNIVERSE_GRAVITY s * m) * mass p * n"
    if "advance s n q = Some r" for n r
  proof -
    from that obtain fr' br' where
      "r = q\<lparr>p_x := p_x q + velocityX q * mass q * n,
               p_y := p_y q + velocityY q * mass q * n,
               velocityX := velocityX q * fr',
               velocityY := velocityY q * fr' + UNIVERSE_GRAVITY s * n,
               alpha := alpha q * br'\<rparr>"
      by (rule advance_SomeE)
    then show ?thesis by (simp add: q)
  qed
  from fr br q next_tick show ?thesis by simp
qed

theorem update_order_witness:
  "advance ex_system 1 (ex_particle 100 160 (1 / 20) (- 1 / 10) (1 / 2)) =
     Some (ex_particle 102 156 (49 / 1000) (- 195 / 2000) (97 / 200))
   \<and> Math_pow (1 - UNIVERSE_FRICTION ex_system) 1 = Some (49 / 50)
   \<and> p_y (ex_particle 102 156 (49 / 1000) (- 195 / 2000) (97 / 200)) = 160 + (- 1 / 10) * 40 * 1
   \<and> velocityY (ex_particle 102 156 (49 / 1000) (- 195 / 2000) (97 / 200))
        = (- 1 / 10) * (49 / 50) + UNIVERSE_GRAVITY ex_system * 1"
proof -
  have adv: "advance ex_system 1 (ex_particle 100 160 (1 / 20) (- 1 / 10) (1 / 2)) =
     Some (ex_particle 102 156 (49 / 1000) (- 195 / 2000) (97 / 200))"
    by (simp add: advance_def ex_system_def new_ParticleSystem_def ex_particle_def
        new_Particle2D_def Math_pow_def Let_def)
  have fr: "Math_pow (1 - UNIVERSE_FRICTION ex_system) 1 = Some (49 / 50)"
    by (simp add: ex_system_def new_ParticleSystem_def Math_pow_def)
  from update_order [OF adv] fr
  have "p_y (ex_particle 102 156 (49 / 1000) (- 195 / 2000) (97 / 200))
          = p_y (ex_particle 100 160 (1 / 20) (- 1 / 10) (1 / 2))
            + velocityY (ex_particle 100 160 (1 / 20) (- 1 / 10) (1 / 2))
              * mass (ex_particle 100 160 (1 / 20) (- 1 / 10) (1 / 2)) * 1
      \<and> velocityY (ex_particle 102 156 (49 / 1000) (- 195 / 2000) (97 / 200))
          = velocityY (ex_particle 100 160 (1 / 20) (- 1 / 10) (1 / 2)) * (49 / 50)
            + UNIVERSE_GRAVITY ex_system * 1"
    by auto
  then have "p_y (ex_particle 102 156 (49 / 1000) (- 195 / 2000) (97 / 200)) = 160 + (- 1 / 10) * 40 * 1
   \<and> velocityY (ex_particle 102 156 (49 / 1000) (- 195 / 2000) (97 / 200))
        = (- 1 / 10) * (49 / 50) + UNIVERSE_GRAVITY ex_system * 1"
    by (simp add: ex_particle_def new_Particle2D_def)
  with adv fr show ?thesis by blast
qed

lemma Math_pow_le_one:
  assumes "0 < b" and "b \<le> 1" and "0 < e" and "Math_pow b e = Some r"
  shows "0 < r \<and> r \<le> 1"
proof -
  from assms have "r = b powr e" by (simp add: Math_pow_def)
  moreover from assms have "b powr e \<le> 1" by (simp add: powr_le1)
  moreover from assms have "0 < b powr e" by simp
  ultimately show ?thesis by simp
qed

lemma alpha_step:
  assumes "0 \<le> alpha p" and "0 < burnRate p" and "burnRate p \<le> 1" and "0 < m"
    and "advance s m p = Some q"
  shows "alpha q \<le> alpha p \<and> 0 \<le> alpha q \<and> burnRate q = burnRate p"
proof -
  from assms(5) obtain fr br where br: "Math_pow (burnRate p) m = Some br"
    and q: "q = p\<lparr>p_x := p_x p + velocityX p * mass p * m,
               p_y := p_y p + velocityY p * mass p * m,
               velocityX := velocityX p * fr,
               velocityY := velocityY p * fr + UNIVERSE_GRAVITY s * m,
               alpha := alpha p * br\<rparr>"
    by (rule advance_SomeE)
  from Math_pow_le_one [OF assms(2,3,4) br] have "0 < br" and "br \<le> 1" by simp_all
  with assms(1) have "alpha p * br \<le> alpha p" and "0 \<le> alpha p * br"
    by (simp_all add: mult_left_le)
  with q show ?thesis by simp
qed

text \<open>
  C4. For a particle whose alpha is not negative (as it is from \<open>spawn\<close> on) and whose burn
  rate is in (0, 1], over any sequence of frames with positive frame multiples the alpha
  at the end is at most the alpha at the start, and it stays non-negative. A single frame
  is the sequence of length one.
\<close>

theorem alpha_decays:
  assumes "0 \<le> alpha p" and "0 < burnRate p" and "burnRate p \<le> 1"
    and "\<forall>m\<in>set ms. 0 < m"
    and "advances s ms p = Some q"
  shows "alpha q \<le> alpha p \<and> 0 \<le> alpha q"
  using assms
proof (induction ms arbitrary: p)
  case Nil
  then show ?case by simp
next
  case (Cons m ms)
  from Cons.prems(5) obtain p1 where p1: "advance s m p = Some p1"
    and rest: "advances s ms p1 = Some q"
    by (auto split: option.splits)
  from Cons.prems(4) have m: "0 < m" and ms: "\<forall>m\<in>set ms. 0 < m" by simp_all
  from alpha_step [OF Cons.prems(1,2,3) m p1]
  have s1: "alpha p1 \<le> alpha p" "0 \<le> alpha p1" "burnRate p1 = burnRate p" by simp_all
  from Cons.IH [OF s1(2) _ _ ms rest] s1(3) Cons.prems(2,3)
  have "alpha q \<le> alpha p1 \<and> 0 \<le> alpha q" by simp
  with s1(1) show ?case by simp
qed

text \<open>
  C8. The two updates compute the same thing in different units: the per-second update,
  run on the particle with its velocities times 1000 in the system with its gravity times
  1000, gives the result of the per-millisecond update with its velocities times 1000,
  positions and alpha being the same; one has no value exactly when the other has none.
\<close>

theorem variants_agree:
  "advance_per_second (per_second_system s) m (per_second p) = map_option per_second (advance s m p)"
  by (simp add: advance_per_second_def advance_def per_second_def per_second_system_def Let_def
      algebra_simps split: option.splits)

lemma frameMultiple_add:
  "0 < ta \<Longrightarrow> 0 < tb \<Longrightarrow> frameMultiple (ta + tb) = frameMultiple ta + frameMultiple tb"
  by (simp add: frameMultiple_def add_divide_distrib)

lemma frameMultiple_pos: "0 < t \<Longrightarrow> 0 < frameMultiple t"
  by (simp add: frameMultiple_def)

lemma Math_pow_add:
  assumes "0 < x" and "0 < y"
    and "Math_pow b x = Some u" and "Math_pow b y = Some v" and "Math_pow b (x + y) = Some w"
  shows "w = u * v"
proof -
  consider "0 < b" | "b = 0" | "b < 0" by linarith
  then show ?thesis
  proof cases
    case 1
    with assms show ?thesis by (simp add: Math_pow_def powr_add)
  next
    case 2
    with assms show ?thesis by (simp add: Math_pow_def)
  next
    case 3
    with assms have x: "x = of_int \<lfloor>x\<rfloor>" and y: "y = of_int \<lfloor>y\<rfloor>"
      and u: "u = b powi \<lfloor>x\<rfloor>" and v: "v = b powi \<lfloor>y\<rfloor>" and w: "w = b powi \<lfloor>x + y\<rfloor>"
      by (auto simp: Math_pow_def split: if_splits)
    from x y have "\<lfloor>x + y\<rfloor> = \<lfloor>x\<rfloor> + \<lfloor>y\<rfloor>"
      by (metis floor_add_int)
    with 3 u v w show ?thesis by (simp add: power_int_add)
  qed
qed

lemma Math_pow_one_base: "Math_pow 1 e = Some 1"
  by (simp add: Math_pow_def)

text \<open>
  C1, as amended. Splitting an elapsed time into two positive parts \<open>ta\<close> and \<open>tb\<close> and
  updating a particle twice gives the same horizontal velocity and the same alpha as one
  update with the whole time. The position and the vertical velocity differ: the
  position by the change of the velocity in the first update times mass times the second
  frame multiple, the vertical velocity by gravity times the first frame multiple times
  (friction factor of the second update minus one). With no friction and no gravity the
  two ways give the same particle.
\<close>

theorem frame_split:
  assumes "0 < ta" and "0 < tb"
    and "advance s (frameMultiple ta) p = Some p1"
    and "advance s (frameMultiple tb) p1 = Some p2"
    and "advance s (frameMultiple (ta + tb)) p = Some p3"
  shows "velocityX p2 = velocityX p3 \<and> alpha p2 = alpha p3
     \<and> p_x p2 - p_x p3 = (velocityX p1 - velocityX p) * mass p * frameMultiple tb
     \<and> p_y p2 - p_y p3 = (velocityY p1 - velocityY p) * mass p * frameMultiple tb
     \<and> (\<exists>fb. Math_pow (1 - UNIVERSE_FRICTION s) (frameMultiple tb) = Some fb
           \<and> velocityY p2 - velocityY p3 = UNIVERSE_GRAVITY s * frameMultiple ta * (fb - 1))
     \<and> (UNIVERSE_FRICTION s = 0 \<and> UNIVERSE_GRAVITY s = 0 \<longrightarrow> p2 = p3)"
proof -
  define a where "a = frameMultiple ta"
  define b where "b = frameMultiple tb"
  have ab: "frameMultiple (ta + tb) = a + b" and a: "0 < a" and b: "0 < b"
    using assms(1,2) by (simp_all add: a_def b_def frameMultiple_add frameMultiple_pos)
  from assms(3) obtain fa ba where fa: "Math_pow (1 - UNIVERSE_FRICTION s) a = Some fa"
    and ba: "Math_pow (burnRate p) a = Some ba"
    and p1: "p1 = p\<lparr>p_x := p_x p + velocityX p * mass p * a,
               p_y := p_y p + velocityY p * mass p * a,
               velocityX := velocityX p * fa,
               velocityY := velocityY p * fa + UNIVERSE_GRAVITY s * a,
               alpha := alpha p * ba\<rparr>"
    unfolding a_def by (rule advance_SomeE)
  from assms(4) obtain fb bb where fb: "Math_pow (1 - UNIVERSE_FRICTION s) b = Some fb"
    and bb: "Math_pow (burnRate p1) b = Some bb"
    and p2: "p2 = p1\<lparr>p_x := p_x p1 + velocityX p1 * mass p1 * b,
               p_y := p_y p1 + velocityY p1 * mass p1 * b,
               velocityX := velocityX p1 * fb,
               velocityY := velocityY p1 * fb + UNIVERSE_GRAVITY s * b,
               alpha := alpha p1 * bb\<rparr>"
    unfolding b_def by (rule advance_SomeE)
  from assms(5) obtain fc bc where fc: "Math_pow (1 - UNIVERSE_FRICTION s) (a + b) = Some fc"
    and bc: "Math_pow (burnRate p) (a + b) = Some bc"
    and p3: "p3 = p\<lparr>p_x := p_x p + velocityX p * mass p * (a + b),
               p_y := p_y p + velocityY p * mass p * (a + b),
               velocityX := velocityX p * fc,
               velocityY := velocityY p * fc + UNIVERSE_GRAVITY s * (a + b),
               alpha := alpha p * bc\<rparr>"
    unfolding ab by (rule advance_SomeE)
  from bb p1 have bb': "Math_pow (burnRate p) b = Some bb" by simp
  have fc_eq: "fc = fa * fb" by (rule Math_pow_add [OF a b fa fb fc])
  have bc_eq: "bc = ba * bb" by (rule Math_pow_add [OF a b ba bb' bc])
  have c1: "velocityX p2 = velocityX p3" by (simp add: p1 p2 p3 fc_eq)
  have c2: "alpha p2 = alpha p3" by (simp add: p1 p2 p3 bc_eq)
  have c3: "p_x p2 - p_x p3 = (velocityX p1 - velocityX p) * mass p * b"
    by (simp add: p1 p2 p3 algebra_simps)
  have c4: "p_y p2 - p_y p3 = (velocityY p1 - velocityY p) * mass p * b"
    by (simp add: p1 p2 p3 algebra_simps)
  have c5: "velocityY p2 - velocityY p3 = UNIVERSE_GRAVITY s * a * (fb - 1)"
    by (simp add: p1 p2 p3 fc_eq algebra_simps)
  have c6: "p2 = p3" if "UNIVERSE_FRICTION s = 0" and "UNIVERSE_GRAVITY s = 0"
  proof -
    from that fa fb Math_pow_one_base have "fa = 1" and "fb = 1" by simp_all
    with that fc_eq bc_eq show ?thesis
      by (simp add: p1 p2 p3 algebra_simps)
  qed
  from c1 c2 c3 c4 c5 c6 fb show ?thesis
    unfolding a_def [symmetric] b_def [symmetric] by blast
qed

lemma drawNextFrame_keeps:
  assumes "drawNextFrame s time = Some s'"
  shows "lastFrameTime s' = time \<and> UNIVERSE_FRICTION s' = UNIVERSE_FRICTION s
     \<and> UNIVERSE_GRAVITY s' = UNIVERSE_GRAVITY s \<and> this_canvas s' = this_canvas s
     \<and> autoClear s' = autoClear s \<and> PARTICLE_MASS_MAX s' = PARTICLE_MASS_MAX s"
proof -
  from drawNextFrame_defined [OF assms] obtain qs
    where qs: "map (advance s (frame_m s time)) (particles s) = map Some qs" by blast
  from drawNextFrame_run [OF qs] assms show ?thesis by auto
qed

lemma ex_moving_fields:
  "UNIVERSE_FRICTION ex_moving = 1 / 50" "UNIVERSE_GRAVITY ex_moving = 1 / 2000"
  "this_canvas ex_moving = ex_canvas" "lastFrameTime ex_moving = 1000"
  "particles ex_moving = [ex_particle 100 160 (1 / 20) 0 (1 / 2)]"
  by (simp_all add: ex_moving_def new_ParticleSystem_def)

lemma ex_moving_step3:
  "advance ex_moving 3 (ex_particle 100 160 (1 / 20) 0 (1 / 2)) =
     Some (ex_particle 106 160 (117649 / 2500000) (3 / 2000) (912673 / 2000000))"
  by (simp add: advance_def ex_moving_fields ex_particle_def new_Particle2D_def Math_pow_def
      Let_def power3_eq_cube)


lemma ex_moving_step3':
  "advance ex_moving 3 (ex_particle 106 160 (117649 / 2500000) (3 / 2000) (912673 / 2000000)) =
     Some (ex_particle (27911788 / 250000) (16018 / 100)
            (117649 / 2500000 * (117649 / 125000)) (3 / 2000 * (117649 / 125000) + 3 / 2000)
            (912673 / 2000000 * (912673 / 1000000)))"
  by (simp add: advance_def ex_moving_fields ex_particle_def new_Particle2D_def Math_pow_def
      Let_def power3_eq_cube)

lemma ex_moving_step6:
  "map_option p_x (advance ex_moving 6 (ex_particle 100 160 (1 / 20) 0 (1 / 2))) = Some 112"
  by (simp add: advance_def ex_moving_fields ex_particle_def new_Particle2D_def Math_pow_def
      Let_def)

lemma ex_not_retired:
  "al > 1 / 10 \<Longrightarrow> 0 \<le> a \<Longrightarrow> a \<le> 200 \<Longrightarrow> 0 \<le> b \<Longrightarrow> b \<le> 200 \<Longrightarrow> this_canvas s = ex_canvas \<Longrightarrow>
     \<not> retired s (ex_particle a b vx vy al)"
  by (simp add: retired_def ex_particle_def new_Particle2D_def ex_canvas_def)

text \<open>
  C1 as stated fails. The last frame was drawn at 1000 and the one particle is at x = 100
  with horizontal velocity 0.05 and mass 40. Two frames, at 1050 and at 1100, leave it at
  x = 111.647152; one frame at 1100 leaves it at x = 112.
\<close>

theorem frame_split_counterexample:
  "map_option (map p_x) (map_option particles (two_frames ex_moving 1050 1100))
     = Some [27911788 / 250000]
   \<and> map_option (map p_x) (map_option particles (drawNextFrame ex_moving 1100)) = Some [112]
   \<and> (27911788 / 250000 :: real) \<noteq> 112"
proof -
  have m1: "frame_m ex_moving 1050 = 3"
    by (simp add: frame_m_def frameMultiple_def ex_moving_fields)
  have u1: "map (advance ex_moving (frame_m ex_moving 1050)) (particles ex_moving) =
      map Some [ex_particle 106 160 (117649 / 2500000) (3 / 2000) (912673 / 2000000)]"
    by (simp add: m1 ex_moving_fields ex_moving_step3)
  from drawNextFrame_run [OF u1] obtain s1
    where s1: "drawNextFrame ex_moving 1050 = Some s1"
      and ps1: "particles s1 = [ex_particle 106 160 (117649 / 2500000) (3 / 2000) (912673 / 2000000)]"
    by (simp add: ex_not_retired ex_moving_fields)
  from drawNextFrame_keeps [OF s1] have k1: "lastFrameTime s1 = 1050"
    "UNIVERSE_FRICTION s1 = UNIVERSE_FRICTION ex_moving"
    "UNIVERSE_GRAVITY s1 = UNIVERSE_GRAVITY ex_moving" "this_canvas s1 = ex_canvas"
    by (simp_all add: ex_moving_fields)
  have m2: "frame_m s1 1100 = 3"
    by (simp add: frame_m_def frameMultiple_def k1)
  have a2: "advance s1 3 = advance ex_moving 3"
    by (rule advance_cong) (simp_all add: k1)
  have u2: "map (advance s1 (frame_m s1 1100)) (particles s1) =
      map Some [ex_particle (27911788 / 250000) (16018 / 100)
            (117649 / 2500000 * (117649 / 125000)) (3 / 2000 * (117649 / 125000) + 3 / 2000)
            (912673 / 2000000 * (912673 / 1000000))]"
    by (simp add: m2 a2 ps1 ex_moving_step3')
  have px: "p_x (ex_particle a b vx vy al) = a" for a b vx vy al
    by (simp add: ex_particle_def new_Particle2D_def)
  have two: "map_option (map p_x) (map_option particles (two_frames ex_moving 1050 1100))
     = Some [27911788 / 250000]"
    by (simp add: two_frames_def s1 drawNextFrame_run [OF u2] ex_not_retired k1 px)
  have m3: "frame_m ex_moving 1100 = 6"
    by (simp add: frame_m_def frameMultiple_def ex_moving_fields)
  from ex_moving_step6 obtain q where q: "advance ex_moving 6 (ex_particle 100 160 (1 / 20) 0 (1 / 2)) = Some q"
    and qx: "p_x q = 112" by auto
  have u3: "map (advance ex_moving (frame_m ex_moving 1100)) (particles ex_moving) = map Some [q]"
    by (simp add: m3 ex_moving_fields q)
  have "\<not> retired ex_moving q"
    using q by (auto simp: retired_def advance_def ex_moving_fields ex_particle_def
        new_Particle2D_def Math_pow_def Let_def ex_canvas_def power_divide)
  then have one: "map_option (map p_x) (map_option particles (drawNextFrame ex_moving 1100)) = Some [112]"
    by (simp add: drawNextFrame_run [OF u3] qx)
  have "(27911788 / 250000 :: real) \<noteq> 112" by simp
  with two one show ?thesis by blast
qed

theorem frame_split_witness:
  "(0::real) < 50
   \<and> advance ex_moving (frameMultiple 50) (ex_particle 100 160 (1 / 20) 0 (1 / 2)) =
       Some (ex_particle 106 160 (117649 / 2500000) (3 / 2000) (912673 / 2000000))
   \<and> advance ex_moving (frameMultiple 50)
         (ex_particle 106 160 (117649 / 2500000) (3 / 2000) (912673 / 2000000)) =
       Some (ex_particle (27911788 / 250000) (16018 / 100)
            (117649 / 2500000 * (117649 / 125000)) (3 / 2000 * (117649 / 125000) + 3 / 2000)
            (912673 / 2000000 * (912673 / 1000000)))
   \<and> advance ex_moving (frameMultiple (50 + 50)) (ex_particle 100 160 (1 / 20) 0 (1 / 2)) \<noteq> None
   \<and> velocityX (the (advance ex_moving (frameMultiple (50 + 50))
                        (ex_particle 100 160 (1 / 20) 0 (1 / 2))))
       = 117649 / 2500000 * (117649 / 125000)
   \<and> alpha (the (advance ex_moving (frameMultiple (50 + 50))
                        (ex_particle 100 160 (1 / 20) 0 (1 / 2))))
       = 912673 / 2000000 * (912673 / 1000000)
   \<and> 27911788 / 250000
       - p_x (the (advance ex_moving (frameMultiple (50 + 50))
                        (ex_particle 100 160 (1 / 20) 0 (1 / 2))))
       = (117649 / 2500000 - 1 / 20) * 40 * 3"
proof -
  have pos: "(0::real) < 50" by simp
  have fm: "frameMultiple 50 = 3" by (simp add: frameMultiple_def)
  have h1: "advance ex_moving (frameMultiple 50) (ex_particle 100 160 (1 / 20) 0 (1 / 2)) =
       Some (ex_particle 106 160 (117649 / 2500000) (3 / 2000) (912673 / 2000000))"
    by (simp add: fm ex_moving_step3)
  have h2: "advance ex_moving (frameMultiple 50)
         (ex_particle 106 160 (117649 / 2500000) (3 / 2000) (912673 / 2000000)) =
       Some (ex_particle (27911788 / 250000) (16018 / 100)
            (117649 / 2500000 * (117649 / 125000)) (3 / 2000 * (117649 / 125000) + 3 / 2000)
            (912673 / 2000000 * (912673 / 1000000)))"
    by (simp add: fm ex_moving_step3')
  from ex_moving_step6 obtain p3
    where h3: "advance ex_moving (frameMultiple (50 + 50)) (ex_particle 100 160 (1 / 20) 0 (1 / 2))
                 = Some p3"
    by (auto simp: frameMultiple_def)
  have sel: "p_x (ex_particle a b vx vy al) = a" "velocityX (ex_particle a b vx vy al) = vx"
    "alpha (ex_particle a b vx vy al) = al" "mass (ex_particle a b vx vy al) = 40"
    for a b vx vy al
    by (simp_all add: ex_particle_def new_Particle2D_def)
  from frame_split [OF pos pos h1 h2 h3]
  have "velocityX p3 = 117649 / 2500000 * (117649 / 125000)
     \<and> alpha p3 = 912673 / 2000000 * (912673 / 1000000)
     \<and> 27911788 / 250000 - p_x p3 = (117649 / 2500000 - 1 / 20) * 40 * 3"
    unfolding sel fm by simp
  with pos h1 h2 h3 show ?thesis by simp
qed

theorem alpha_decays_witness:
  "0 \<le> alpha (ex_particle 100 160 (1 / 20) 0 (1 / 2))
   \<and> 0 < burnRate (ex_particle 100 160 (1 / 20) 0 (1 / 2))
   \<and> burnRate (ex_particle 100 160 (1 / 20) 0 (1 / 2)) \<le> 1
   \<and> (0 :: real) < 3
   \<and> advances ex_moving [3, 3] (ex_particle 100 160 (1 / 20) 0 (1 / 2)) =
       Some (ex_particle (27911788 / 250000) (16018 / 100)
            (117649 / 2500000 * (117649 / 125000)) (3 / 2000 * (117649 / 125000) + 3 / 2000)
            (912673 / 2000000 * (912673 / 1000000)))
   \<and> 912673 / 2000000 * (912673 / 1000000) \<le> (1 / 2 :: real)"
proof -
  have h1: "0 \<le> alpha (ex_particle 100 160 (1 / 20) 0 (1 / 2))"
    and h2: "0 < burnRate (ex_particle 100 160 (1 / 20) 0 (1 / 2))"
    and h3: "burnRate (ex_particle 100 160 (1 / 20) 0 (1 / 2)) \<le> 1"
    by (simp_all add: ex_particle_def new_Particle2D_def)
  have h4: "\<forall>m\<in>set [3, 3 :: real]. 0 < m" by simp
  have h5: "advances ex_moving [3, 3] (ex_particle 100 160 (1 / 20) 0 (1 / 2)) =
       Some (ex_particle (27911788 / 250000) (16018 / 100)
            (117649 / 2500000 * (117649 / 125000)) (3 / 2000 * (117649 / 125000) + 3 / 2000)
            (912673 / 2000000 * (912673 / 1000000)))"
    by (simp add: ex_moving_step3 ex_moving_step3')
  have sel: "alpha (ex_particle a b vx vy al) = al" for a b vx vy al
    by (simp add: ex_particle_def new_Particle2D_def)
  from alpha_decays [OF h1 h2 h3 h4 h5]
  have "912673 / 2000000 * (912673 / 1000000) \<le> (1 / 2 :: real)"
    unfolding sel by simp
  with h1 h2 h3 h5 show ?thesis by simp
qed

section \<open>The claim about draw\<close>

lemma ToInt32_of_int:
  "- (2 ^ 31) \<le> n \<Longrightarrow> n < 2 ^ 31 \<Longrightarrow> ToInt32 (of_int n) = n"
  by (simp add: ToInt32_def Let_def)

lemma shr1_even:
  assumes "0 \<le> k" and "k < 2 ^ 30"
  shows "of_int (shr1 (of_int (2 * k))) = (of_int (2 * k) :: real) / 2"
proof -
  from assms have "ToInt32 (of_int (2 * k)) = 2 * k"
    by (intro ToInt32_of_int) simp_all
  then show ?thesis by (simp add: shr1_def)
qed

text \<open>
  C7, as amended. \<open>draw\<close> makes one \<^verbatim>\<open>fillRect\<close> call, over the square of side \<open>mass\<close> at the
  truncated position, with a radial gradient whose two circles share the centre
  (truncated x + h, truncated y + h), where \<open>h\<close> is the integer half of the size (the mass
  converted to a 32-bit integer and shifted right by one bit); the outer radius is \<open>h\<close> and
  the inner radius is \<open>h\<close> times sharpness. So sharpness 0 gives the inner radius 0 and
  sharpness 1 gives the inner radius equal to the outer one. \<open>h\<close> is half the size, and
  the centre the centre of the square, when the mass is an even integer (below \<open>2^31\<close>).
\<close>

theorem draw_gradient:
  "fillStyle (draw p c) =
     Some \<lparr>x0 = of_int (ToInt32 (p_x p) + shr1 (mass p)),
           y0 = of_int (ToInt32 (p_y p) + shr1 (mass p)),
           r0 = of_int (shr1 (mass p)) * sharpness p,
           x1 = of_int (ToInt32 (p_x p) + shr1 (mass p)),
           y1 = of_int (ToInt32 (p_y p) + shr1 (mass p)),
           r1 = of_int (shr1 (mass p)),
           colorStops = [(0, getColor p), (1, Rgba 50 0 30 0)]\<rparr>
   \<and> calls (draw p c) =
       calls c @ [FillRect (fillStyle (draw p c)) (of_int (ToInt32 (p_x p)))
                    (of_int (ToInt32 (p_y p))) (mass p) (mass p)]
   \<and> (sharpness p = 0 \<longrightarrow> map_option r0 (fillStyle (draw p c)) = Some 0)
   \<and> (sharpness p = 1 \<longrightarrow>
         map_option r0 (fillStyle (draw p c)) = map_option r1 (fillStyle (draw p c)))
   \<and> (\<forall>k. 0 \<le> k \<and> k < 2 ^ 30 \<and> mass p = of_int (2 * k) \<longrightarrow>
         map_option r1 (fillStyle (draw p c)) = Some (mass p / 2))"
proof -
  have g: "fillStyle (draw p c) =
     Some \<lparr>x0 = of_int (ToInt32 (p_x p) + shr1 (mass p)),
           y0 = of_int (ToInt32 (p_y p) + shr1 (mass p)),
           r0 = of_int (shr1 (mass p)) * sharpness p,
           x1 = of_int (ToInt32 (p_x p) + shr1 (mass p)),
           y1 = of_int (ToInt32 (p_y p) + shr1 (mass p)),
           r1 = of_int (shr1 (mass p)),
           colorStops = [(0, getColor p), (1, Rgba 50 0 30 0)]\<rparr>"
    by (simp add: draw_def Let_def fillRect_def createRadialGradient_def addColorStop_def)
  have cs: "calls (draw p c) =
       calls c @ [FillRect (fillStyle (draw p c)) (of_int (ToInt32 (p_x p)))
                    (of_int (ToInt32 (p_y p))) (mass p) (mass p)]"
    by (simp add: draw_def Let_def fillRect_def)
  have even: "map_option r1 (fillStyle (draw p c)) = Some (mass p / 2)"
    if "0 \<le> k" and "k < 2 ^ 30" and "mass p = of_int (2 * k)" for k
    using shr1_even [OF that(1,2)] that(3) by (simp add: g)
  from g cs even show ?thesis by simp
qed

theorem draw_gradient_witness:
  "sharpness ((ex_particle 100 160 0 0 (1 / 2))\<lparr>sharpness := 0\<rparr>) = 0
   \<and> map_option r0 (fillStyle (draw ((ex_particle 100 160 0 0 (1 / 2))\<lparr>sharpness := 0\<rparr>)
          (getContext ex_canvas))) = Some 0
   \<and> sharpness ((ex_particle 100 160 0 0 (1 / 2))\<lparr>sharpness := 1\<rparr>) = 1
   \<and> map_option r0 (fillStyle (draw ((ex_particle 100 160 0 0 (1 / 2))\<lparr>sharpness := 1\<rparr>)
          (getContext ex_canvas))) = Some 20
   \<and> map_option r1 (fillStyle (draw ((ex_particle 100 160 0 0 (1 / 2))\<lparr>sharpness := 1\<rparr>)
          (getContext ex_canvas))) = Some 20
   \<and> (0::int) \<le> 20 \<and> (20::int) < 2 ^ 30
   \<and> mass ((ex_particle 100 160 0 0 (1 / 2))\<lparr>sharpness := 1\<rparr>) = of_int (2 * 20)"
proof -
  have m: "mass ((ex_particle 100 160 0 0 (1 / 2))\<lparr>sharpness := 1\<rparr>) = of_int (2 * 20)"
    and s0: "sharpness ((ex_particle 100 160 0 0 (1 / 2))\<lparr>sharpness := 0\<rparr>) = 0"
    and s1: "sharpness ((ex_particle 100 160 0 0 (1 / 2))\<lparr>sharpness := 1\<rparr>) = 1"
    by (simp_all add: ex_particle_def new_Particle2D_def)
  have k: "(0::int) \<le> 20" "(20::int) < 2 ^ 30" by simp_all
  from draw_gradient [of "(ex_particle 100 160 0 0 (1 / 2))\<lparr>sharpness := 0\<rparr>" "getContext ex_canvas"] s0
  have a: "map_option r0 (fillStyle (draw ((ex_particle 100 160 0 0 (1 / 2))\<lparr>sharpness := 0\<rparr>)
          (getContext ex_canvas))) = Some 0"
    by blast
  from draw_gradient [of "(ex_particle 100 160 0 0 (1 / 2))\<lparr>sharpness := 1\<rparr>" "getContext ex_canvas"]
    s1 k m
  have b: "map_option r0 (fillStyle (draw ((ex_particle 100 160 0 0 (1 / 2))\<lparr>sharpness := 1\<rparr>)
          (getContext ex_canvas))) = map_option r1 (fillStyle (draw ((ex_particle 100 160 0 0 (1 / 2))\<lparr>sharpness := 1\<rparr>)
          (getContext ex_canvas)))"
    and c: "map_option r1 (fillStyle (draw ((ex_particle 100 160 0 0 (1 / 2))\<lparr>sharpness := 1\<rparr>)
          (getContext ex_canvas))) = Some (mass ((ex_particle 100 160 0 0 (1 / 2))\<lparr>sharpness := 1\<rparr>) / 2)"
    by blast+
  from a b c m s0 s1 k show ?thesis by simp
qed

lemma ToInt32_45: "ToInt32 45 = 45" and ToInt32_100: "ToInt32 100 = 100"
  and ToInt32_160: "ToInt32 160 = 160"
  by (simp_all add: ToInt32_def Let_def)

text \<open>
  C7 as stated fails. For a particle of mass 45 at (100, 160) the filled square has side 45
  and centre (122.5, 182.5); the outer radius is 22, not 22.5, and the gradient is centred
  at x = 122.
\<close>

theorem draw_gradient_counterexample:
  "map_option r1 (fillStyle (draw ((ex_particle 100 160 0 0 (1 / 2))\<lparr>mass := 45\<rparr>)
      (getContext ex_canvas))) = Some 22
   \<and> mass ((ex_particle 100 160 0 0 (1 / 2))\<lparr>mass := 45\<rparr>) / 2 = 45 / 2
   \<and> map_option x0 (fillStyle (draw ((ex_particle 100 160 0 0 (1 / 2))\<lparr>mass := 45\<rparr>)
      (getContext ex_canvas))) = Some 122
   \<and> calls (draw ((ex_particle 100 160 0 0 (1 / 2))\<lparr>mass := 45\<rparr>) (getContext ex_canvas)) =
       [FillRect (fillStyle (draw ((ex_particle 100 160 0 0 (1 / 2))\<lparr>mass := 45\<rparr>)
                    (getContext ex_canvas))) 100 160 45 45]
   \<and> (22 :: real) \<noteq> 45 / 2 \<and> (122 :: real) \<noteq> 100 + 45 / 2"
  by (simp add: draw_def Let_def fillRect_def createRadialGradient_def addColorStop_def
      ex_particle_def new_Particle2D_def getContext_def shr1_def ToInt32_45 ToInt32_100
      ToInt32_160)

section \<open>The claim about spawn\<close>

lemma spawn_one_appends:
  "\<exists>pt. spawn_one s rnd k = s\<lparr>particles := particles s @ [pt]\<rparr>
     \<and> p_x pt = this_x s \<and> p_y pt = this_y s \<and> alpha pt = rnd (k + 3)
     \<and> burnRate pt = PARTICLE_BURN_RATE s"
  by (rule exI [where x = "last (particles (spawn_one s rnd k))"])
     (simp add: spawn_one_def Let_def new_Particle2D_def)

lemma spawn_loop_appends:
  "\<exists>new. spawn_loop s rnd k n = s\<lparr>particles := particles s @ new\<rparr>
     \<and> length new = nat n
     \<and> (\<forall>p\<in>set new. p_x p = this_x s \<and> p_y p = this_y s
            \<and> burnRate p = PARTICLE_BURN_RATE s \<and> alpha p \<in> range rnd)"
proof (induction s rnd k n rule: spawn_loop.induct)
  case (1 s rnd k n)
  show ?case
  proof (cases "n > 0")
    case False
    then have "spawn_loop s rnd k n = s" by (simp add: spawn_loop.simps [of s rnd k n])
    with False show ?thesis by simp
  next
    case True
    from spawn_one_appends [of s rnd k] obtain pt
      where s1: "spawn_one s rnd k = s\<lparr>particles := particles s @ [pt]\<rparr>"
        and pt: "p_x pt = this_x s" "p_y pt = this_y s" "alpha pt = rnd (k + 3)"
          "burnRate pt = PARTICLE_BURN_RATE s"
      by blast
    from "1.IH" [OF True] obtain new
      where run: "spawn_loop (spawn_one s rnd k) rnd (k + 4) (n - 1) =
                    (spawn_one s rnd k)\<lparr>particles := particles (spawn_one s rnd k) @ new\<rparr>"
        and len: "length new = nat (n - 1)"
        and pos: "\<forall>p\<in>set new. p_x p = this_x (spawn_one s rnd k)
            \<and> p_y p = this_y (spawn_one s rnd k)
            \<and> burnRate p = PARTICLE_BURN_RATE (spawn_one s rnd k) \<and> alpha p \<in> range rnd"
      by blast
    from True have "spawn_loop s rnd k n = spawn_loop (spawn_one s rnd k) rnd (k + 4) (n - 1)"
      by (simp add: spawn_loop.simps [of s rnd k n])
    with run s1 have "spawn_loop s rnd k n = s\<lparr>particles := particles s @ (pt # new)\<rparr>"
      by simp
    moreover from len True have "length (pt # new) = nat n" by simp
    moreover from pos pt s1 have "\<forall>p\<in>set (pt # new). p_x p = this_x s \<and> p_y p = this_y s
            \<and> burnRate p = PARTICLE_BURN_RATE s \<and> alpha p \<in> range rnd"
      by simp
    ultimately show ?thesis by blast
  qed
qed

text \<open>
  What \<open>spawn\<close> creates meets the conditions under which alpha decays: \<^verbatim>\<open>Math.random()\<close>
  returns numbers from 0 (inclusive) to 1, so the alpha of a new particle is not negative,
  and its burn rate is the one of the system.
\<close>

lemma spawn_alpha_burnRate:
  assumes "\<forall>j. 0 \<le> rnd j \<and> rnd j < 1"
    and "p \<in> set (drop (length (particles s)) (particles (spawn s rnd n)))"
  shows "0 \<le> alpha p \<and> alpha p < 1 \<and> burnRate p = PARTICLE_BURN_RATE s"
proof -
  from spawn_loop_appends [of s rnd 0 n] obtain new
    where run: "spawn s rnd n = s\<lparr>particles := particles s @ new\<rparr>"
      and new: "\<forall>p\<in>set new. p_x p = this_x s \<and> p_y p = this_y s
            \<and> burnRate p = PARTICLE_BURN_RATE s \<and> alpha p \<in> range rnd"
    unfolding spawn_def by blast
  from assms(2) run have "p \<in> set new" by simp
  with new have "burnRate p = PARTICLE_BURN_RATE s" and "alpha p \<in> range rnd" by simp_all
  with assms(1) show ?thesis by auto
qed

text \<open>
  C3. For an integer \<open>n\<close> that is not negative, \<open>spawn\<close> leaves the particles that were
  live in place and appends \<open>n\<close> new ones, each at the spawn position of the system; for
  \<open>n = 0\<close> and for a negative \<open>n\<close> it changes nothing.
\<close>

theorem spawn_appends:
  "(0 \<le> n \<longrightarrow>
      take (length (particles s)) (particles (spawn s rnd n)) = particles s
      \<and> length (particles (spawn s rnd n)) = length (particles s) + nat n
      \<and> (\<forall>p\<in>set (drop (length (particles s)) (particles (spawn s rnd n))).
            p_x p = this_x s \<and> p_y p = this_y s))
   \<and> (n = 0 \<longrightarrow> spawn s rnd n = s)
   \<and> (n < 0 \<longrightarrow> spawn s rnd n = s)"
proof -
  from spawn_loop_appends [of s rnd 0 n] obtain new
    where run: "spawn s rnd n = s\<lparr>particles := particles s @ new\<rparr>"
      and len: "length new = nat n"
      and pos: "\<forall>p\<in>set new. p_x p = this_x s \<and> p_y p = this_y s"
    unfolding spawn_def by fastforce
  have none: "spawn s rnd n = s" if "n \<le> 0"
    using that by (simp add: spawn_def spawn_loop.simps [of s rnd 0 n])
  have some: "take (length (particles s)) (particles (spawn s rnd n)) = particles s
      \<and> length (particles (spawn s rnd n)) = length (particles s) + nat n
      \<and> (\<forall>p\<in>set (drop (length (particles s)) (particles (spawn s rnd n))).
            p_x p = this_x s \<and> p_y p = this_y s)"
    using len pos by (simp add: run)
  from none [of] some show ?thesis by auto
qed

lemma ex_spawn_two:
  "particles (spawn ex_system ex_rnd 2) =
     particles ex_system @
       [(ex_particle 100 160 0 (- 9 / 100) (1 / 2))\<lparr>mass := 45\<rparr>,
        (ex_particle 100 160 0 (- 9 / 100) (1 / 2))\<lparr>mass := 45\<rparr>]"
  by (simp add: spawn_def spawn_loop.simps [of _ _ _ 2] spawn_loop.simps [of _ _ _ 1]
      spawn_loop.simps [of _ _ _ 0] spawn_one_def Let_def ex_rnd_def ex_system_def
      new_ParticleSystem_def new_Particle2D_def ex_particle_def ex_canvas_def shr1_def
      ToInt32_def)


theorem spawn_appends_witness:
  "(0::int) \<le> 2
   \<and> length (particles (spawn ex_system ex_rnd 2)) = 6
   \<and> take 4 (particles (spawn ex_system ex_rnd 2)) = particles ex_system
   \<and> particles (spawn ex_system ex_rnd 2) ! 5 \<in> set (drop 4 (particles (spawn ex_system ex_rnd 2)))
   \<and> p_x (particles (spawn ex_system ex_rnd 2) ! 5) = 100
   \<and> p_y (particles (spawn ex_system ex_rnd 2) ! 5) = 160
   \<and> spawn ex_system ex_rnd 0 = ex_system
   \<and> (- 1 :: int) < 0
   \<and> spawn ex_system ex_rnd (- 1) = ex_system"
proof -
  have len0: "length (particles ex_system) = 4" by (simp add: ex_particles)
  have origin: "this_x ex_system = 100" "this_y ex_system = 160"
    by (simp_all add: ex_system_def new_ParticleSystem_def ex_canvas_def shr1_def ToInt32_def)
  have mem: "particles (spawn ex_system ex_rnd 2) ! 5
               \<in> set (drop 4 (particles (spawn ex_system ex_rnd 2)))"
    by (simp add: ex_spawn_two ex_particles)
  from spawn_appends [of 2 ex_system ex_rnd] len0
  have a: "take 4 (particles (spawn ex_system ex_rnd 2)) = particles ex_system"
    and b: "length (particles (spawn ex_system ex_rnd 2)) = 6"
    and c: "\<forall>p\<in>set (drop 4 (particles (spawn ex_system ex_rnd 2))).
              p_x p = this_x ex_system \<and> p_y p = this_y ex_system"
    by simp_all
  from c mem origin have d: "p_x (particles (spawn ex_system ex_rnd 2) ! 5) = 100"
    "p_y (particles (spawn ex_system ex_rnd 2) ! 5) = 160"
    by simp_all
  from spawn_appends [of 0 ex_system ex_rnd] have e: "spawn ex_system ex_rnd 0 = ex_system"
    by simp
  from spawn_appends [of "- 1" ex_system ex_rnd] have f: "spawn ex_system ex_rnd (- 1) = ex_system"
    by simp
  from a b mem d e f show ?thesis by simp
qed

end
